theory Spec2Isabelle
  imports Main "HOL-Library.Word"
begin

unbundle bit_operations_syntax

section \<open>Data model of the generic provider (dist/index.js)\<close>

text \<open>
  The provider is a class with mutable fields; every method becomes a function from the
  state before the call to the state after it. The collaborators the provider only
  consumes (the document engine \<open>yjs\<close>, the sync and awareness protocols of
  \<open>y-protocols\<close>, the varint codec of \<open>lib0\<close>) are parameters: an \<open>engine\<close> record
  of functions over an opaque document type \<open>'d\<close> and an opaque presence store \<open>'a\<close>.
  Frames are modelled after decoding (inbound) and before encoding (outbound).
  JavaScript numbers that count (sequence numbers, the mismatch counter) are \<open>nat\<close>,
  timestamps of \<open>Date.now()\<close> and hashes are \<open>int\<close>; the 32-bit wrap-around of the
  hash loop is a \<open>32 word\<close>.
\<close>

type_synonym byte = "8 word"
type_synonym bytes = "byte list"
type_synonym json = string
type_synonym config = string

text \<open>A thrown or rejected JavaScript value: an \<open>Error\<close> object or anything else.\<close>

datatype js_value = JsError string | JsOther string

text \<open>\<open>error instanceof Error ? error : new Error(String(error))\<close>\<close>

fun asError :: "js_value \<Rightarrow> js_value" where
  "asError (JsError m) = JsError m"
| "asError (JsOther v) = JsError v"

datatype conn_status = Disconnected | Connecting | Connected | StatusError js_value

text \<open>
  An inbound frame as the decoder of \<open>_handleIncomingMessage\<close> sees it: the message
  type, then the fields read in the order of the source. The sync payload stays opaque
  (it is read by the engine); a pub/sub payload that is not JSON is \<open>None\<close>; a verified
  frame whose trailing hash cannot be read has hash \<open>None\<close>; \<open>InUndecodable\<close> is a frame
  whose leading fields already make the decoder throw.
\<close>

datatype in_frame =
    InSync bytes
  | InAwareness bytes
  | InPubSub string "json option"
  | InSyncVerified nat nat bytes "int option"
  | InUnknown nat
  | InUndecodable

text \<open>An outbound frame as the encoders build it, before \<open>toUint8Array\<close>.\<close>

datatype out_frame =
    OutSyncStep1 bytes
  | OutSyncReply bytes
  | OutSyncUpdate bytes
  | OutSyncVerified nat nat bytes int
  | OutAwareness bytes
  | OutPubSub string json

datatype warning =
    WarnCannotSync
  | WarnDuplicate nat nat int
  | WarnGap nat nat nat int
  | WarnHashMismatch nat int int
  | WarnResyncScheduled int
  | WarnRateLimit
  | WarnUnknownType nat
  | WarnPubSubNotConnected

datatype error_log = ErrHandling | ErrPubSubDecode | ErrSending js_value

text \<open>
  Everything the provider does to the outside, in the order it does it: calls of the
  transport's methods, console output, events emitted to its observers, and pub/sub
  callbacks invoked (subscription id, callback, message, topic).
\<close>

datatype event =
    TransportConnect config
  | TransportOnMessage
  | TransportUnsubscribe
  | TransportDisconnect
  | TransportSend out_frame
  | Warn warning
  | LogError error_log
  | EmitStatus conn_status
  | EmitSynced bool
  | Invoked nat nat json string

datatype timer_kind = PeriodicResync | BatchDebounce | BackoffResync

record timer =
  tid :: nat
  kind :: timer_kind
  delay :: int

text \<open>One handler registered by \<open>PubSubChannel.subscribe\<close> on the channel's observable.\<close>

record subscription =
  subId :: nat
  subTopic :: string
  subCallback :: nat

text \<open>
  What a callback registered on the pub/sub channel may do to the channel while it runs:
  subscribe a callback to a topic, call an unsubscribe function, publish a message.
\<close>

datatype channel_call =
    CallSubscribe string nat
  | CallUnsubscribe nat
  | CallPublish string json

text \<open>
  The external capabilities. \<open>readSyncMessage\<close> returns \<open>None\<close> when it throws, and
  otherwise the sync message type it read, the bytes it wrote to the reply encoder and
  the document after the merge. \<open>applyAwarenessUpdate\<close> and \<open>removeAwarenessStates\<close>
  return the new store and the client ids of the change notification they emit.
  \<open>applyLocal\<close> is a local edit of the application, which the document reports as an
  update. \<open>callbackBehaviour\<close> is the application's code behind a pub/sub callback: for
  the callback, the message and the topic it is invoked with, the calls it makes to the
  channel, in order, and the value it throws then, if it throws.
\<close>

record ('d, 'a) engine =
  encodeStateAsUpdate :: "'d \<Rightarrow> bytes"
  encodeStateVector :: "'d \<Rightarrow> bytes"
  mergeUpdates :: "bytes \<Rightarrow> bytes \<Rightarrow> bytes"
  applyLocal :: "'d \<Rightarrow> bytes \<Rightarrow> 'd"
  readSyncMessage :: "bytes \<Rightarrow> 'd \<Rightarrow> (nat \<times> bytes \<times> 'd) option"
  clientID :: "'d \<Rightarrow> nat"
  encodeAwarenessUpdate :: "'a \<Rightarrow> nat list \<Rightarrow> bytes"
  applyAwarenessUpdate :: "'a \<Rightarrow> bytes \<Rightarrow> ('a \<times> nat list) option"
  removeAwarenessStates :: "'a \<Rightarrow> nat list \<Rightarrow> 'a \<times> nat list"
  newAwareness :: "'d \<Rightarrow> 'a"
  destroyAwareness :: "'a \<Rightarrow> 'a"
  callbackBehaviour :: "nat \<Rightarrow> json \<Rightarrow> string \<Rightarrow> channel_call list \<times> js_value option"

text \<open>\<open>syncProtocol.messageYjsSyncStep2\<close>, a constant of y-protocols.\<close>

definition messageYjsSyncStep2 :: nat where
  "messageYjsSyncStep2 = 1"

text \<open>
  The fields of \<open>GenericProvider\<close>, followed by the part of the environment its methods
  read and write: the transport (\<open>isConnected\<close>, and whether \<open>send\<close> throws), the
  pending timers of \<open>setTimeout\<close>/\<open>setInterval\<close>, and the trace of effects.
\<close>

record ('d, 'a) provider =
  status :: conn_status
  synced :: bool
  destroying :: bool
  hashMismatchCount :: nat
  lastHashMismatchTime :: int
  syncRequestTimes :: "int list"
  maxSyncRequestsPerWindow :: nat
  syncRequestWindowMs :: int
  localSeqNum :: nat
  remoteSeqNums :: "nat \<rightharpoonup> nat"
  batchUpdates :: int
  pendingUpdate :: "bytes option"
  doc :: 'd
  awareness :: 'a
  syncInterval :: int
  verifyUpdates :: bool
  syncIntervalId :: "nat option"
  batchTimeoutId :: "nat option"
  unsubscribeTransport :: bool
  updateHandler :: bool
  awarenessUpdateHandler :: bool
  handlers :: "subscription list"
  nextSubId :: nat
  isConnected :: bool
  sendThrows :: "js_value option"
  timers :: "timer list"
  nextTimerId :: nat
  trace :: "event list"

text \<open>The result of a method that may throw: the state is kept either way.\<close>

datatype 's outcome = Returned 's | Threw js_value 's

fun stateOf :: "'s outcome \<Rightarrow> 's" where
  "stateOf (Returned s) = s"
| "stateOf (Threw e s) = s"

section \<open>The document hash\<close>

text \<open>
  \<open>hash = ((hash << 5) - hash + state[i]) | 0\<close>: every intermediate value is exact in a
  double, and \<open>| 0\<close> reduces it to a signed 32-bit integer, so the loop is arithmetic
  modulo \<open>2^32\<close> read as signed at the end.
\<close>

definition hashStep :: "32 word \<Rightarrow> byte \<Rightarrow> 32 word" where
  "hashStep h b = push_bit 5 h - h + ucast b"

definition hashBytes :: "bytes \<Rightarrow> int" where
  "hashBytes state = sint (foldl hashStep 0 state)"

definition computeDocHash :: "('d, 'a) engine \<Rightarrow> 'd \<Rightarrow> int" where
  "computeDocHash E d = hashBytes (encodeStateAsUpdate E d)"

section \<open>Effects\<close>

definition emit :: "event \<Rightarrow> ('d, 'a) provider \<Rightarrow> ('d, 'a) provider" where
  "emit e s = s\<lparr>trace := trace s @ [e]\<rparr>"

definition setStatus :: "conn_status \<Rightarrow> ('d, 'a) provider \<Rightarrow> ('d, 'a) provider" where
  "setStatus st s = emit (EmitStatus st) (s\<lparr>status := st\<rparr>)"

text \<open>\<open>setTimeout\<close>/\<open>setInterval\<close>: a fresh handle, the timer pending until cleared or fired.\<close>

definition setTimer :: "timer_kind \<Rightarrow> int \<Rightarrow> ('d, 'a) provider \<Rightarrow> ('d, 'a) provider" where
  "setTimer k d s =
     s\<lparr>timers := timers s @ [\<lparr>tid = nextTimerId s, kind = k, delay = d\<rparr>],
       nextTimerId := Suc (nextTimerId s)\<rparr>"

definition clearTimer :: "nat \<Rightarrow> ('d, 'a) provider \<Rightarrow> ('d, 'a) provider" where
  "clearTimer i s = s\<lparr>timers := filter (\<lambda>t. tid t \<noteq> i) (timers s)\<rparr>"

section \<open>Sending\<close>

text \<open>
  \<open>_send\<close>: nothing when the transport is not connected; a synchronous throw of
  \<open>transport.send\<close> is caught and logged.
\<close>

definition send :: "out_frame \<Rightarrow> ('d, 'a) provider \<Rightarrow> ('d, 'a) provider" where
  "send f s =
     (if \<not> isConnected s then s
      else (case sendThrows s of
              None \<Rightarrow> emit (TransportSend f) s
            | Some e \<Rightarrow> emit (LogError (ErrSending e)) (emit (TransportSend f) s)))"

text \<open>\<open>_sendSyncStep1\<close>, with \<open>now = Date.now()\<close>.\<close>

definition sendSyncStep1 ::
  "('d, 'a) engine \<Rightarrow> int \<Rightarrow> ('d, 'a) provider \<Rightarrow> ('d, 'a) provider" where
  "sendSyncStep1 E now s =
     (let s1 = s\<lparr>syncRequestTimes :=
                   filter (\<lambda>t. now - t < syncRequestWindowMs s) (syncRequestTimes s)\<rparr>
      in if length (syncRequestTimes s1) \<ge> maxSyncRequestsPerWindow s1
         then emit (Warn WarnRateLimit) s1
         else send (OutSyncStep1 (encodeStateVector E (doc s1)))
                (s1\<lparr>syncRequestTimes := syncRequestTimes s1 @ [now]\<rparr>))"

text \<open>
  \<open>_sendUpdate\<close>: calls \<open>transport.send\<close> directly, with no connectivity check and no
  \<open>try\<close>, so a throw of the transport leaves the method after the counter was advanced.
\<close>

definition sendUpdate ::
  "('d, 'a) engine \<Rightarrow> bytes \<Rightarrow> ('d, 'a) provider \<Rightarrow> ('d, 'a) provider outcome" where
  "sendUpdate E update s =
     (let s1 = (if verifyUpdates s
                then emit (TransportSend (OutSyncVerified (localSeqNum s) (clientID E (doc s))
                             update (computeDocHash E (doc s))))
                       (s\<lparr>localSeqNum := localSeqNum s + 1\<rparr>)
                else emit (TransportSend (OutSyncUpdate update)) s)
      in case sendThrows s of None \<Rightarrow> Returned s1 | Some e \<Rightarrow> Threw e s1)"

text \<open>\<open>_broadcastAwareness\<close>\<close>

definition broadcastAwareness ::
  "('d, 'a) engine \<Rightarrow> nat list \<Rightarrow> ('d, 'a) provider \<Rightarrow> ('d, 'a) provider" where
  "broadcastAwareness E clients s =
     (if length clients = 0 then s
      else send (OutAwareness (encodeAwarenessUpdate E (awareness s) clients)) s)"

text \<open>\<open>_sendPubSub\<close>, called by \<open>PubSubChannel.publish\<close>; the message is already JSON text.\<close>

definition sendPubSub :: "string \<Rightarrow> json \<Rightarrow> ('d, 'a) provider \<Rightarrow> ('d, 'a) provider" where
  "sendPubSub topic message s =
     (if \<not> isConnected s then emit (Warn WarnPubSubNotConnected) s
      else send (OutPubSub topic message) s)"

section \<open>The pub/sub channel\<close>

text \<open>
  \<open>subscribe\<close> registers a new handler closure on the channel's observable and returns
  the function that removes it; here the handle is the subscription's id. The
  observable keeps its handlers in registration order.
\<close>

definition subscribe ::
  "string \<Rightarrow> nat \<Rightarrow> ('d, 'a) provider \<Rightarrow> nat \<times> ('d, 'a) provider" where
  "subscribe topic callback s =
     (nextSubId s,
      s\<lparr>handlers := handlers s @ [\<lparr>subId = nextSubId s, subTopic = topic, subCallback = callback\<rparr>],
        nextSubId := Suc (nextSubId s)\<rparr>)"

definition unsubscribe :: "nat \<Rightarrow> ('d, 'a) provider \<Rightarrow> ('d, 'a) provider" where
  "unsubscribe i s = s\<lparr>handlers := filter (\<lambda>h. subId h \<noteq> i) (handlers s)\<rparr>"

text \<open>A call of the channel made by a callback while it runs.\<close>

fun runCall :: "channel_call \<Rightarrow> ('d, 'a) provider \<Rightarrow> ('d, 'a) provider" where
  "runCall (CallSubscribe topic callback) s = snd (subscribe topic callback s)"
| "runCall (CallUnsubscribe i) s = unsubscribe i s"
| "runCall (CallPublish topic message) s = sendPubSub topic message s"

fun runCalls :: "channel_call list \<Rightarrow> ('d, 'a) provider \<Rightarrow> ('d, 'a) provider" where
  "runCalls [] s = s"
| "runCalls (c # cs) s = runCalls cs (runCall c s)"

text \<open>
  \<open>_handleMessage\<close> is \<open>this.emit('message', [message, topic])\<close>. The observable of lib0
  (a dependency, not among the sources) calls a copy of the handlers registered at that
  moment, in registration order, with nothing caught between them: the list \<open>hs\<close> is
  that copy, and a handler that throws ends the loop. Each handler calls its callback
  when \<open>topic === '*' || topic === receivedTopic\<close>; the invocation is recorded, then the
  callback does what \<open>callbackBehaviour\<close> says.
\<close>

fun invokeAll ::
  "('d, 'a) engine \<Rightarrow> subscription list \<Rightarrow> json \<Rightarrow> string \<Rightarrow> ('d, 'a) provider \<Rightarrow>
   ('d, 'a) provider outcome" where
  "invokeAll E [] message receivedTopic s = Returned s"
| "invokeAll E (h # hs) message receivedTopic s =
     (if subTopic h = ''*'' \<or> subTopic h = receivedTopic
      then (case callbackBehaviour E (subCallback h) message receivedTopic of
              (calls, thrown) \<Rightarrow>
                (let s1 = runCalls calls
                            (emit (Invoked (subId h) (subCallback h) message receivedTopic) s)
                 in case thrown of
                      Some e \<Rightarrow> Threw e s1
                    | None \<Rightarrow> invokeAll E hs message receivedTopic s1))
      else invokeAll E hs message receivedTopic s)"

definition pubsubHandleMessage ::
  "('d, 'a) engine \<Rightarrow> string \<Rightarrow> json \<Rightarrow> ('d, 'a) provider \<Rightarrow> ('d, 'a) provider outcome" where
  "pubsubHandleMessage E topic message s = invokeAll E (handlers s) message topic s"

text \<open>
  The branch \<open>case MESSAGE_PUBSUB\<close>: one \<open>try\<close> holds the JSON decoding and the whole
  delivery, so a payload that is not JSON and a callback that throws end in the same
  \<open>catch\<close>, which logs.
\<close>

definition handlePubSub ::
  "('d, 'a) engine \<Rightarrow> string \<Rightarrow> json option \<Rightarrow> ('d, 'a) provider \<Rightarrow> ('d, 'a) provider" where
  "handlePubSub E topic payload s =
     (case payload of
        None \<Rightarrow> emit (LogError ErrPubSubDecode) s
      | Some message \<Rightarrow>
          (case pubsubHandleMessage E topic message s of
             Returned s' \<Rightarrow> s'
           | Threw e s' \<Rightarrow> emit (LogError ErrPubSubDecode) s'))"

section \<open>Inbound dispatch\<close>

text \<open>The awareness store's change notification reaches \<open>_awarenessUpdateHandler\<close>.\<close>

definition awarenessChanged ::
  "('d, 'a) engine \<Rightarrow> nat list \<Rightarrow> ('d, 'a) provider \<Rightarrow> ('d, 'a) provider" where
  "awarenessChanged E changedClients s =
     (if awarenessUpdateHandler s then broadcastAwareness E changedClients s else s)"

text \<open>The hash comparison of a verified frame, after the merge.\<close>

definition backoffDelay :: "nat \<Rightarrow> int" where
  "backoffDelay count = min 10000 (10 * 5 ^ (count - 1))"

definition verifyHash ::
  "('d, 'a) engine \<Rightarrow> int \<Rightarrow> int \<Rightarrow> int \<Rightarrow> ('d, 'a) provider \<Rightarrow> ('d, 'a) provider" where
  "verifyHash E now localHash expectedHash s =
     (if localHash \<noteq> expectedHash then
        (let count = (if now - lastHashMismatchTime s > 10000 then 1
                      else hashMismatchCount s + 1);
             s1 = s\<lparr>hashMismatchCount := count, lastHashMismatchTime := now\<rparr>;
             d = backoffDelay count
         in setTimer BackoffResync d
              (emit (Warn (WarnResyncScheduled d))
                 (emit (Warn (WarnHashMismatch count localHash expectedHash)) s1)))
      else s\<lparr>hashMismatchCount := 0\<rparr>)"

text \<open>\<open>this._remoteSeqNums.get(senderClientID) ?? -1\<close>\<close>

definition lastSeen :: "('d, 'a) provider \<Rightarrow> nat \<Rightarrow> int" where
  "lastSeen s senderClientID =
     (case remoteSeqNums s senderClientID of None \<Rightarrow> - 1 | Some l \<Rightarrow> int l)"

text \<open>The branch \<open>case MESSAGE_SYNC_VERIFIED\<close>.\<close>

definition handleVerified ::
  "('d, 'a) engine \<Rightarrow> int \<Rightarrow> nat \<Rightarrow> nat \<Rightarrow> bytes \<Rightarrow> int option \<Rightarrow>
   ('d, 'a) provider \<Rightarrow> ('d, 'a) provider" where
  "handleVerified E now seqNum senderClientID payload hashField s =
     (let lastSeq = lastSeen s senderClientID
      in if int seqNum \<le> lastSeq
         then emit (Warn (WarnDuplicate senderClientID seqNum lastSeq)) s
         else
           (let s1 = (if lastSeq \<ge> 0 \<and> int seqNum > lastSeq + 1
                      then emit (Warn (WarnGap senderClientID (nat (lastSeq + 1)) seqNum
                                         (int seqNum - lastSeq - 1))) s
                      else s);
                s2 = s1\<lparr>remoteSeqNums := (remoteSeqNums s1)(senderClientID \<mapsto> seqNum)\<rparr>
            in case readSyncMessage E payload (doc s2) of
                 None \<Rightarrow> emit (LogError ErrHandling) s2
               | Some (syncMessageType, reply, d') \<Rightarrow>
                   (let s3 = s2\<lparr>doc := d'\<rparr>
                    in case hashField of
                         None \<Rightarrow> emit (LogError ErrHandling) s3
                       | Some expectedHash \<Rightarrow>
                           (let localHash = computeDocHash E (doc s3);
                                s4 = verifyHash E now localHash expectedHash s3;
                                s5 = (if syncMessageType = messageYjsSyncStep2 \<and> \<not> synced s4
                                         \<and> localHash = expectedHash
                                      then emit (EmitSynced True) (s4\<lparr>synced := True\<rparr>)
                                      else s4)
                            in if length reply > 0 then send (OutSyncReply reply) s5 else s5))))"

text \<open>The branch \<open>case MESSAGE_SYNC\<close>.\<close>

definition handlePlainSync ::
  "('d, 'a) engine \<Rightarrow> bytes \<Rightarrow> ('d, 'a) provider \<Rightarrow> ('d, 'a) provider" where
  "handlePlainSync E payload s =
     (case readSyncMessage E payload (doc s) of
        None \<Rightarrow> emit (LogError ErrHandling) s
      | Some (syncMessageType, reply, d') \<Rightarrow>
          (let s1 = s\<lparr>doc := d'\<rparr>;
               s2 = (if syncMessageType = messageYjsSyncStep2 \<and> \<not> synced s1
                     then emit (EmitSynced True) (s1\<lparr>synced := True\<rparr>)
                     else s1)
           in if length reply > 0 then send (OutSyncReply reply) s2 else s2))"

text \<open>\<open>_handleIncomingMessage\<close>, with \<open>now = Date.now()\<close>.\<close>

fun handleIncomingMessage ::
  "('d, 'a) engine \<Rightarrow> int \<Rightarrow> in_frame \<Rightarrow> ('d, 'a) provider \<Rightarrow> ('d, 'a) provider" where
  "handleIncomingMessage E now (InSync payload) s = handlePlainSync E payload s"
| "handleIncomingMessage E now (InAwareness update) s =
     (case applyAwarenessUpdate E (awareness s) update of
        None \<Rightarrow> emit (LogError ErrHandling) s
      | Some (a', changed) \<Rightarrow> awarenessChanged E changed (s\<lparr>awareness := a'\<rparr>))"
| "handleIncomingMessage E now (InPubSub topic payload) s = handlePubSub E topic payload s"
| "handleIncomingMessage E now (InSyncVerified seqNum senderClientID payload hashField) s =
     handleVerified E now seqNum senderClientID payload hashField s"
| "handleIncomingMessage E now (InUnknown messageType) s =
     emit (Warn (WarnUnknownType messageType)) s"
| "handleIncomingMessage E now InUndecodable s = emit (LogError ErrHandling) s"

section \<open>Local updates and batching\<close>

text \<open>\<open>_batchUpdate\<close>\<close>

definition batchUpdate ::
  "('d, 'a) engine \<Rightarrow> bytes \<Rightarrow> ('d, 'a) provider \<Rightarrow> ('d, 'a) provider" where
  "batchUpdate E update s =
     (let s1 = s\<lparr>pendingUpdate :=
                   Some (case pendingUpdate s of
                           Some pending \<Rightarrow> mergeUpdates E pending update
                         | None \<Rightarrow> update)\<rparr>;
          s2 = (case batchTimeoutId s1 of Some i \<Rightarrow> clearTimer i s1 | None \<Rightarrow> s1)
      in (setTimer BatchDebounce (batchUpdates s2) s2)\<lparr>batchTimeoutId := Some (nextTimerId s2)\<rparr>)"

text \<open>
  The document's update listener installed by \<open>_setupDocumentSync\<close>; \<open>fromProvider\<close>
  is \<open>origin === this\<close>.
\<close>

definition onDocUpdate ::
  "('d, 'a) engine \<Rightarrow> bytes \<Rightarrow> bool \<Rightarrow> ('d, 'a) provider \<Rightarrow> ('d, 'a) provider outcome" where
  "onDocUpdate E update fromProvider s =
     (if \<not> fromProvider then
        (if batchUpdates s > 0 then Returned (batchUpdate E update s)
         else sendUpdate E update s)
      else Returned s)"

section \<open>Timers firing\<close>

text \<open>
  A timer fires only while it is pending; a timeout is gone once it fired, an interval
  stays. The three callbacks are the ones of \<open>connect\<close> (periodic resync),
  \<open>_batchUpdate\<close> (debounce) and \<open>_handleIncomingMessage\<close> (backoff resync).
\<close>

definition fireTimer ::
  "('d, 'a) engine \<Rightarrow> int \<Rightarrow> nat \<Rightarrow> ('d, 'a) provider \<Rightarrow> ('d, 'a) provider outcome" where
  "fireTimer E now i s =
     (case find (\<lambda>t. tid t = i) (timers s) of
        None \<Rightarrow> Returned s
      | Some t \<Rightarrow>
          (case kind t of
             PeriodicResync \<Rightarrow>
               Returned (if isConnected s \<and> \<not> destroying s then sendSyncStep1 E now s else s)
           | BatchDebounce \<Rightarrow>
               (let s0 = clearTimer i s
                in case pendingUpdate s0 of
                     Some pending \<Rightarrow>
                       (case sendUpdate E pending s0 of
                          Threw e s1 \<Rightarrow> Threw e s1
                        | Returned s1 \<Rightarrow>
                            Returned (s1\<lparr>pendingUpdate := None, batchTimeoutId := None\<rparr>))
                   | None \<Rightarrow> Returned (s0\<lparr>batchTimeoutId := None\<rparr>))
           | BackoffResync \<Rightarrow> Returned (sendSyncStep1 E now (clearTimer i s))))"

section \<open>Lifecycle\<close>

record 'a options =
  optAwareness :: "'a option"
  optSyncInterval :: "int option"
  optVerifyUpdates :: "bool option"
  optBatchUpdates :: "int option"

text \<open>
  The constructor. The transport is handed in by the caller, in whatever state it is
  (\<open>connected\<close>, \<open>throws\<close>).
\<close>

definition newProvider ::
  "('d, 'a) engine \<Rightarrow> 'd \<Rightarrow> bool \<Rightarrow> js_value option \<Rightarrow> 'a options \<Rightarrow> ('d, 'a) provider" where
  "newProvider E d connected throws opts =
     \<lparr>status = Disconnected, synced = False, destroying = False,
      hashMismatchCount = 0, lastHashMismatchTime = 0,
      syncRequestTimes = [], maxSyncRequestsPerWindow = 20, syncRequestWindowMs = 10000,
      localSeqNum = 0, remoteSeqNums = Map.empty,
      batchUpdates = (case optBatchUpdates opts of Some b \<Rightarrow> b | None \<Rightarrow> 0),
      pendingUpdate = None,
      doc = d,
      awareness = (case optAwareness opts of Some a \<Rightarrow> a | None \<Rightarrow> newAwareness E d),
      syncInterval = (case optSyncInterval opts of Some i \<Rightarrow> i | None \<Rightarrow> 5000),
      verifyUpdates = (case optVerifyUpdates opts of Some v \<Rightarrow> v | None \<Rightarrow> True),
      syncIntervalId = None, batchTimeoutId = None,
      unsubscribeTransport = False, updateHandler = True, awarenessUpdateHandler = True,
      handlers = [], nextSubId = 0,
      isConnected = connected, sendThrows = throws,
      timers = [], nextTimerId = 0, trace = []\<rparr>"

text \<open>
  \<open>connect\<close> is asynchronous: the part before \<open>await this.transport.connect(config)\<close>,
  and the part that runs when the transport's promise settles. A transport whose
  promise resolved reports itself connected, and one that was told to disconnect does
  not, as the Dummy and WebSocket transports of the repository do; a transport that
  behaves otherwise is covered by the operation \<open>OpTransport\<close> below, which sets what
  the transport reports at any moment.
\<close>

datatype settled = Resolved | Rejected js_value

definition connectBegin ::
  "config \<Rightarrow> ('d, 'a) provider \<Rightarrow> ('d, 'a) provider outcome" where
  "connectBegin cfg s =
     (if destroying s then Threw (JsError ''Provider is being destroyed'') s
      else Returned (emit (TransportConnect cfg) (setStatus Connecting s)))"

definition connectSettled ::
  "('d, 'a) engine \<Rightarrow> int \<Rightarrow> settled \<Rightarrow> ('d, 'a) provider \<Rightarrow> ('d, 'a) provider outcome" where
  "connectSettled E now r s =
     (case r of
        Rejected err \<Rightarrow> Threw err (setStatus (StatusError (asError err)) s)
      | Resolved \<Rightarrow>
          (let s1 = emit TransportOnMessage (s\<lparr>isConnected := True\<rparr>);
               s2 = setStatus Connected (s1\<lparr>unsubscribeTransport := True\<rparr>);
               s3 = sendSyncStep1 E now s2;
               s4 = broadcastAwareness E [clientID E (doc s3)] s3
           in Returned
                (if syncInterval s4 > 0
                 then (setTimer PeriodicResync (syncInterval s4) s4)
                        \<lparr>syncIntervalId := Some (nextTimerId s4)\<rparr>
                 else s4)))"

definition connect ::
  "('d, 'a) engine \<Rightarrow> int \<Rightarrow> config \<Rightarrow> settled \<Rightarrow> ('d, 'a) provider \<Rightarrow>
   ('d, 'a) provider outcome" where
  "connect E now cfg r s =
     (case connectBegin cfg s of
        Threw e s' \<Rightarrow> Threw e s'
      | Returned s' \<Rightarrow> connectSettled E now r s')"

text \<open>The two timer handles that \<open>disconnect\<close> and \<open>destroy\<close> both clear.\<close>

definition clearOwnTimers :: "('d, 'a) provider \<Rightarrow> ('d, 'a) provider" where
  "clearOwnTimers s =
     (let s1 = (case syncIntervalId s of
                  Some i \<Rightarrow> (clearTimer i s)\<lparr>syncIntervalId := None\<rparr>
                | None \<Rightarrow> s)
      in case batchTimeoutId s1 of
           Some i \<Rightarrow> (clearTimer i s1)\<lparr>batchTimeoutId := None, pendingUpdate := None\<rparr>
         | None \<Rightarrow> s1)"

definition disconnect :: "('d, 'a) engine \<Rightarrow> ('d, 'a) provider \<Rightarrow> ('d, 'a) provider" where
  "disconnect E s =
     (let s1 = clearOwnTimers s;
          s2 = (if unsubscribeTransport s1
                then emit TransportUnsubscribe (s1\<lparr>unsubscribeTransport := False\<rparr>)
                else s1);
          (a', removed) = removeAwarenessStates E (awareness s2) [clientID E (doc s2)];
          s3 = awarenessChanged E removed (s2\<lparr>awareness := a'\<rparr>);
          s4 = emit TransportDisconnect (s3\<lparr>isConnected := False\<rparr>)
      in setStatus Disconnected (s4\<lparr>synced := False\<rparr>))"

text \<open>
  \<open>destroy\<close>; \<open>super.destroy()\<close> drops the observers of the provider's own events,
  which the model does not hold (it records the emissions).
\<close>

definition destroy :: "('d, 'a) engine \<Rightarrow> ('d, 'a) provider \<Rightarrow> ('d, 'a) provider" where
  "destroy E s =
     (let s1 = clearOwnTimers (s\<lparr>destroying := True\<rparr>);
          s2 = disconnect E s1;
          s3 = s2\<lparr>updateHandler := False, awarenessUpdateHandler := False\<rparr>
      in s3\<lparr>awareness := destroyAwareness E (awareness s3)\<rparr>)"

text \<open>\<open>syncNow\<close>, with \<open>now = Date.now()\<close> as read by \<open>_sendSyncStep1\<close>.\<close>

definition syncNow ::
  "('d, 'a) engine \<Rightarrow> int \<Rightarrow> ('d, 'a) provider \<Rightarrow> ('d, 'a) provider outcome" where
  "syncNow E now s =
     (if \<not> isConnected s then Returned (emit (Warn WarnCannotSync) s)
      else
        (let update = encodeStateAsUpdate E (doc s)
         in case (if length update > 0 then sendUpdate E update s else Returned s) of
              Threw e s1 \<Rightarrow> Threw e s1
            | Returned s1 \<Rightarrow>
                Returned (broadcastAwareness E [clientID E (doc s1)] (sendSyncStep1 E now s1))))"

section \<open>The provider as a transition system\<close>

text \<open>
  Everything that can happen to a provider between its construction and the end of
  its life: calls of its public methods, events of its collaborators, timers firing,
  and the transport changing its connectivity or its \<open>send\<close> behaviour. An inbound frame
  reaches \<open>_handleIncomingMessage\<close> only while the callback is registered, a document
  or presence event reaches its listener only while that is installed.
\<close>

datatype 'a op =
    OpConnectBegin config
  | OpConnectSettled settled
  | OpDisconnect
  | OpDestroy
  | OpSyncNow
  | OpIncoming in_frame
  | OpLocalEdit bytes
  | OpPresenceChange 'a "nat list"
  | OpFireTimer nat
  | OpPublish string json
  | OpSubscribe string nat
  | OpUnsubscribe nat
  | OpTransport bool "js_value option"

fun step ::
  "('d, 'a) engine \<Rightarrow> int \<Rightarrow> 'a op \<Rightarrow> ('d, 'a) provider \<Rightarrow> ('d, 'a) provider outcome" where
  "step E now (OpConnectBegin cfg) s = connectBegin cfg s"
| "step E now (OpConnectSettled r) s = connectSettled E now r s"
| "step E now OpDisconnect s = Returned (disconnect E s)"
| "step E now OpDestroy s = Returned (destroy E s)"
| "step E now OpSyncNow s = syncNow E now s"
| "step E now (OpIncoming f) s =
     Returned (if unsubscribeTransport s then handleIncomingMessage E now f s else s)"
| "step E now (OpLocalEdit update) s =
     (let s1 = s\<lparr>doc := applyLocal E (doc s) update\<rparr>
      in if updateHandler s1 then onDocUpdate E update False s1 else Returned s1)"
| "step E now (OpPresenceChange a' changed) s =
     Returned (awarenessChanged E changed (s\<lparr>awareness := a'\<rparr>))"
| "step E now (OpFireTimer i) s = fireTimer E now i s"
| "step E now (OpPublish topic message) s = Returned (sendPubSub topic message s)"
| "step E now (OpSubscribe topic callback) s = Returned (snd (subscribe topic callback s))"
| "step E now (OpUnsubscribe i) s = Returned (unsubscribe i s)"
| "step E now (OpTransport connected throws) s =
     Returned (s\<lparr>isConnected := connected, sendThrows := throws\<rparr>)"

text \<open>A run: the operations in order, each at its own time; a throw ends only its own call.\<close>

fun run ::
  "('d, 'a) engine \<Rightarrow> (int \<times> 'a op) list \<Rightarrow> ('d, 'a) provider \<Rightarrow> ('d, 'a) provider" where
  "run E [] s = s"
| "run E ((now, x) # xs) s = run E xs (stateOf (step E now x s))"

section \<open>Observations of a trace\<close>

text \<open>The frames handed to \<open>transport.send\<close>, and the warnings logged, in order.\<close>

definition sentFrames :: "event list \<Rightarrow> out_frame list" where
  "sentFrames tr = concat (map (\<lambda>e. case e of TransportSend f \<Rightarrow> [f] | _ \<Rightarrow> []) tr)"

definition warnings :: "event list \<Rightarrow> warning list" where
  "warnings tr = concat (map (\<lambda>e. case e of Warn w \<Rightarrow> [w] | _ \<Rightarrow> []) tr)"

text \<open>The sequence numbers stamped on the verified frames among them.\<close>

definition verifiedSeqNums :: "out_frame list \<Rightarrow> nat list" where
  "verifiedSeqNums fs = concat (map (\<lambda>f. case f of OutSyncVerified n c u h \<Rightarrow> [n] | _ \<Rightarrow> []) fs)"

text \<open>The invocations of the callback of subscription \<open>i\<close> recorded in a trace.\<close>

definition invocationsOf :: "nat \<Rightarrow> event list \<Rightarrow> event list" where
  "invocationsOf i tr =
     filter (\<lambda>e. case e of Invoked j cb m t \<Rightarrow> j = i | _ \<Rightarrow> False) tr"

section \<open>A small engine to run the model on\<close>

text \<open>
  A grow-only set of bytes stands in for the document engine wherever a statement is
  evaluated on concrete input: a document is a replica id with the bytes it holds, an
  update is the bytes to add, the state vector is the bytes held. A sync payload is a
  type byte (0 request, 1 reply, 2 update) followed by bytes. The presence store is the
  list of replica ids present. Of the pub/sub callbacks, number 400 throws, number 500
  calls the unsubscribe function of subscription 1, and the others only return.
\<close>

definition demoApply :: "nat \<times> bytes \<Rightarrow> bytes \<Rightarrow> nat \<times> bytes" where
  "demoApply d u = (fst d, snd d @ filter (\<lambda>b. b \<notin> set (snd d)) u)"

definition demoRead ::
  "bytes \<Rightarrow> nat \<times> bytes \<Rightarrow> (nat \<times> bytes \<times> (nat \<times> bytes)) option" where
  "demoRead payload d =
     (case payload of
        [] \<Rightarrow> None
      | t # rest \<Rightarrow>
          if t = 0 then Some (0, 1 # filter (\<lambda>b. b \<notin> set rest) (snd d), d)
          else if t = 1 then Some (1, [], demoApply d rest)
          else if t = 2 then Some (2, [], demoApply d rest)
          else None)"

definition demoEngine :: "(nat \<times> bytes, nat list) engine" where
  "demoEngine =
     \<lparr>encodeStateAsUpdate = (\<lambda>d. 0 # snd d),
      encodeStateVector = snd,
      mergeUpdates = (\<lambda>p u. p @ u),
      applyLocal = demoApply,
      readSyncMessage = demoRead,
      clientID = fst,
      encodeAwarenessUpdate = (\<lambda>a cs. map of_nat cs),
      applyAwarenessUpdate = (\<lambda>a u. Some (a @ map unat u, map unat u)),
      removeAwarenessStates =
        (\<lambda>a cs. (filter (\<lambda>c. c \<notin> set cs) a, filter (\<lambda>c. c \<in> set a) cs)),
      newAwareness = (\<lambda>d. [fst d]),
      destroyAwareness = (\<lambda>a. []),
      callbackBehaviour =
        (\<lambda>cb m t. if cb = 400 then ([], Some (JsError ''callback failed''))
                  else if cb = 500 then ([CallUnsubscribe 1], None)
                  else ([], None))\<rparr>"

definition demoOptions :: "nat list options" where
  "demoOptions =
     \<lparr>optAwareness = None, optSyncInterval = None, optVerifyUpdates = None,
      optBatchUpdates = None\<rparr>"

text \<open>A new provider of replica 7 holding three bytes, on a connected or an offline transport.\<close>

definition demoProvider :: "(nat \<times> bytes, nat list) provider" where
  "demoProvider = newProvider demoEngine (7, [1, 2, 3]) True None demoOptions"

definition demoOffline :: "(nat \<times> bytes, nat list) provider" where
  "demoOffline = newProvider demoEngine (7, [1, 2, 3]) False None demoOptions"

text \<open>
  A verified update frame of replica 9 with sequence number 5 that adds the byte 4 and
  carries a digest that is not the receiver's, and the new provider after receiving it.
\<close>

definition demoFrame :: in_frame where
  "demoFrame = InSyncVerified 5 9 [2, 4] (Some 0)"

definition demoAfterMismatch :: "(nat \<times> bytes, nat list) provider" where
  "demoAfterMismatch = handleIncomingMessage demoEngine 1700000000000 demoFrame demoProvider"

text \<open>
  The new provider after \<open>connect\<close> succeeded, and after it then received a plain sync
  frame with the final handshake step.
\<close>

definition demoConnected :: "(nat \<times> bytes, nat list) provider" where
  "demoConnected =
     run demoEngine
       [(1700000000000, OpConnectBegin ''room''), (1700000000000, OpConnectSettled Resolved)]
       demoProvider"

definition demoSynced :: "(nat \<times> bytes, nat list) provider" where
  "demoSynced = handleIncomingMessage demoEngine 1700000000050 (InSync [1, 5]) demoConnected"

text \<open>
  A session of the new provider: connect, a local edit, disconnect, connect again, a
  second local edit.
\<close>

definition demoSession :: "(int \<times> nat list op) list" where
  "demoSession =
     [(1700000000000, OpConnectBegin ''room''), (1700000000000, OpConnectSettled Resolved),
      (1700000001000, OpLocalEdit [9]),
      (1700000002000, OpDisconnect),
      (1700000003000, OpConnectBegin ''room''), (1700000003000, OpConnectSettled Resolved),
      (1700000004000, OpLocalEdit [10])]"

text \<open>The connected provider with three subscriptions: to a topic, to all topics, to another topic.\<close>

definition demoSubscribed :: "(nat \<times> bytes, nat list) provider" where
  "demoSubscribed =
     run demoEngine
       [(1700000000100, OpSubscribe ''chat'' 100), (1700000000100, OpSubscribe ''*'' 200),
        (1700000000100, OpSubscribe ''news'' 300)]
       demoConnected"

text \<open>
  The connected provider after it received the mismatching frame of replica 9 and was
  then disconnected, 5 ms later, by its owner.
\<close>

definition demoDisconnected :: "(nat \<times> bytes, nat list) provider" where
  "demoDisconnected =
     run demoEngine
       [(1700000000100, OpIncoming demoFrame), (1700000000105, OpDisconnect)]
       demoConnected"

text \<open>All invocations of callbacks recorded in a trace.\<close>

definition invocations :: "event list \<Rightarrow> event list" where
  "invocations tr = filter (\<lambda>e. case e of Invoked j cb m t \<Rightarrow> True | _ \<Rightarrow> False) tr"

text \<open>
  The connected provider with two subscriptions to one topic, the first with a callback
  that throws; and with the first callback calling the unsubscribe function of the
  second subscription.
\<close>

definition demoThrowingCallback :: "(nat \<times> bytes, nat list) provider" where
  "demoThrowingCallback =
     run demoEngine
       [(1700000000100, OpSubscribe ''chat'' 400), (1700000000100, OpSubscribe ''chat'' 200)]
       demoConnected"

definition demoUnsubscribingCallback :: "(nat \<times> bytes, nat list) provider" where
  "demoUnsubscribingCallback =
     run demoEngine
       [(1700000000100, OpSubscribe ''chat'' 500), (1700000000100, OpSubscribe ''chat'' 200)]
       demoConnected"

text \<open>The connected provider on a transport whose \<open>send\<close> has begun to throw.\<close>

definition demoThrowingTransport :: "(nat \<times> bytes, nat list) provider" where
  "demoThrowingTransport =
     run demoEngine [(1700000000400, OpTransport True (Some (JsError ''send failed'')))]
       demoConnected"

section \<open>What each method leaves alone\<close>

lemma sentFrames_simps [simp]:
  "sentFrames [] = []"
  "sentFrames (xs @ ys) = sentFrames xs @ sentFrames ys"
  "sentFrames (TransportSend f # xs) = f # sentFrames xs"
  "sentFrames (Warn w # xs) = sentFrames xs"
  "sentFrames (LogError l # xs) = sentFrames xs"
  "sentFrames (EmitStatus st # xs) = sentFrames xs"
  "sentFrames (EmitSynced b # xs) = sentFrames xs"
  "sentFrames (Invoked i c m t # xs) = sentFrames xs"
  "sentFrames (TransportConnect cfg # xs) = sentFrames xs"
  "sentFrames (TransportOnMessage # xs) = sentFrames xs"
  "sentFrames (TransportUnsubscribe # xs) = sentFrames xs"
  "sentFrames (TransportDisconnect # xs) = sentFrames xs"
  by (simp_all add: sentFrames_def)

lemma emit_fields [simp]:
  "maxSyncRequestsPerWindow (emit e s) = maxSyncRequestsPerWindow s"
  "syncRequestWindowMs (emit e s) = syncRequestWindowMs s"
  "remoteSeqNums (emit e s) = remoteSeqNums s"
  "localSeqNum (emit e s) = localSeqNum s"
  "synced (emit e s) = synced s"
  "trace (emit e s) = trace s @ [e]"
  by (simp_all add: emit_def)

lemma send_fields [simp]:
  "maxSyncRequestsPerWindow (send f s) = maxSyncRequestsPerWindow s"
  "syncRequestWindowMs (send f s) = syncRequestWindowMs s"
  "remoteSeqNums (send f s) = remoteSeqNums s"
  "localSeqNum (send f s) = localSeqNum s"
  "synced (send f s) = synced s"
  by (simp_all add: send_def split: option.splits)

lemma setStatus_fields [simp]:
  "maxSyncRequestsPerWindow (setStatus st s) = maxSyncRequestsPerWindow s"
  "syncRequestWindowMs (setStatus st s) = syncRequestWindowMs s"
  "remoteSeqNums (setStatus st s) = remoteSeqNums s"
  "localSeqNum (setStatus st s) = localSeqNum s"
  "synced (setStatus st s) = synced s"
  "trace (setStatus st s) = trace s @ [EmitStatus st]"
  by (simp_all add: setStatus_def)

lemma setTimer_fields [simp]:
  "maxSyncRequestsPerWindow (setTimer k d s) = maxSyncRequestsPerWindow s"
  "syncRequestWindowMs (setTimer k d s) = syncRequestWindowMs s"
  "remoteSeqNums (setTimer k d s) = remoteSeqNums s"
  "localSeqNum (setTimer k d s) = localSeqNum s"
  "synced (setTimer k d s) = synced s"
  "trace (setTimer k d s) = trace s"
  by (simp_all add: setTimer_def)

lemma clearTimer_fields [simp]:
  "maxSyncRequestsPerWindow (clearTimer i s) = maxSyncRequestsPerWindow s"
  "syncRequestWindowMs (clearTimer i s) = syncRequestWindowMs s"
  "remoteSeqNums (clearTimer i s) = remoteSeqNums s"
  "localSeqNum (clearTimer i s) = localSeqNum s"
  "synced (clearTimer i s) = synced s"
  "trace (clearTimer i s) = trace s"
  by (simp_all add: clearTimer_def)

lemma sendSyncStep1_fields [simp]:
  "maxSyncRequestsPerWindow (sendSyncStep1 E now s) = maxSyncRequestsPerWindow s"
  "syncRequestWindowMs (sendSyncStep1 E now s) = syncRequestWindowMs s"
  "remoteSeqNums (sendSyncStep1 E now s) = remoteSeqNums s"
  "localSeqNum (sendSyncStep1 E now s) = localSeqNum s"
  "synced (sendSyncStep1 E now s) = synced s"
  by (simp_all add: sendSyncStep1_def Let_def)

lemma broadcastAwareness_fields [simp]:
  "maxSyncRequestsPerWindow (broadcastAwareness E cs s) = maxSyncRequestsPerWindow s"
  "syncRequestWindowMs (broadcastAwareness E cs s) = syncRequestWindowMs s"
  "remoteSeqNums (broadcastAwareness E cs s) = remoteSeqNums s"
  "localSeqNum (broadcastAwareness E cs s) = localSeqNum s"
  "synced (broadcastAwareness E cs s) = synced s"
  by (simp_all add: broadcastAwareness_def)

lemma awarenessChanged_fields [simp]:
  "maxSyncRequestsPerWindow (awarenessChanged E cs s) = maxSyncRequestsPerWindow s"
  "syncRequestWindowMs (awarenessChanged E cs s) = syncRequestWindowMs s"
  "remoteSeqNums (awarenessChanged E cs s) = remoteSeqNums s"
  "localSeqNum (awarenessChanged E cs s) = localSeqNum s"
  "synced (awarenessChanged E cs s) = synced s"
  by (simp_all add: awarenessChanged_def)

lemma sendPubSub_fields [simp]:
  "maxSyncRequestsPerWindow (sendPubSub t m s) = maxSyncRequestsPerWindow s"
  "syncRequestWindowMs (sendPubSub t m s) = syncRequestWindowMs s"
  "remoteSeqNums (sendPubSub t m s) = remoteSeqNums s"
  "localSeqNum (sendPubSub t m s) = localSeqNum s"
  "synced (sendPubSub t m s) = synced s"
  by (simp_all add: sendPubSub_def)

lemma runCall_fields [simp]:
  "maxSyncRequestsPerWindow (runCall c s) = maxSyncRequestsPerWindow s"
  "syncRequestWindowMs (runCall c s) = syncRequestWindowMs s"
  "remoteSeqNums (runCall c s) = remoteSeqNums s"
  "localSeqNum (runCall c s) = localSeqNum s"
  "synced (runCall c s) = synced s"
  by (cases c; simp add: subscribe_def unsubscribe_def)+

lemma runCalls_fields [simp]:
  "maxSyncRequestsPerWindow (runCalls cs s) = maxSyncRequestsPerWindow s"
  "syncRequestWindowMs (runCalls cs s) = syncRequestWindowMs s"
  "remoteSeqNums (runCalls cs s) = remoteSeqNums s"
  "localSeqNum (runCalls cs s) = localSeqNum s"
  "synced (runCalls cs s) = synced s"
  by (induction cs arbitrary: s; simp)+

lemma invokeAll_fields [simp]:
  "maxSyncRequestsPerWindow (stateOf (invokeAll E hs m t s)) = maxSyncRequestsPerWindow s"
  "syncRequestWindowMs (stateOf (invokeAll E hs m t s)) = syncRequestWindowMs s"
  "remoteSeqNums (stateOf (invokeAll E hs m t s)) = remoteSeqNums s"
  "localSeqNum (stateOf (invokeAll E hs m t s)) = localSeqNum s"
  "synced (stateOf (invokeAll E hs m t s)) = synced s"
  by (induction hs arbitrary: s; simp add: Let_def split: prod.splits option.splits)+

lemma handlePubSub_cases:
  "handlePubSub E topic payload s = emit (LogError ErrPubSubDecode) s \<or>
   (\<exists>m. payload = Some m \<and>
      (handlePubSub E topic payload s = stateOf (invokeAll E (handlers s) m topic s) \<or>
       handlePubSub E topic payload s =
         emit (LogError ErrPubSubDecode) (stateOf (invokeAll E (handlers s) m topic s))))"
proof (cases payload)
  case None
  then show ?thesis by (simp add: handlePubSub_def)
next
  case (Some m)
  then show ?thesis
    by (cases "invokeAll E (handlers s) m topic s")
       (simp_all add: handlePubSub_def pubsubHandleMessage_def)
qed

lemma handlePubSub_fields [simp]:
  "maxSyncRequestsPerWindow (handlePubSub E topic payload s) = maxSyncRequestsPerWindow s"
  "syncRequestWindowMs (handlePubSub E topic payload s) = syncRequestWindowMs s"
  "remoteSeqNums (handlePubSub E topic payload s) = remoteSeqNums s"
  "localSeqNum (handlePubSub E topic payload s) = localSeqNum s"
  "synced (handlePubSub E topic payload s) = synced s"
  using handlePubSub_cases [of E topic payload s] by auto

lemma sendUpdate_fields [simp]:
  "maxSyncRequestsPerWindow (stateOf (sendUpdate E u s)) = maxSyncRequestsPerWindow s"
  "syncRequestWindowMs (stateOf (sendUpdate E u s)) = syncRequestWindowMs s"
  "remoteSeqNums (stateOf (sendUpdate E u s)) = remoteSeqNums s"
  "synced (stateOf (sendUpdate E u s)) = synced s"
  by (simp_all add: sendUpdate_def Let_def split: option.splits)

lemma verifyHash_fields [simp]:
  "maxSyncRequestsPerWindow (verifyHash E now l e s) = maxSyncRequestsPerWindow s"
  "syncRequestWindowMs (verifyHash E now l e s) = syncRequestWindowMs s"
  "remoteSeqNums (verifyHash E now l e s) = remoteSeqNums s"
  "localSeqNum (verifyHash E now l e s) = localSeqNum s"
  "synced (verifyHash E now l e s) = synced s"
  by (simp_all add: verifyHash_def Let_def)

lemma handleIncoming_fields [simp]:
  "maxSyncRequestsPerWindow (handleIncomingMessage E now f s) = maxSyncRequestsPerWindow s"
  "syncRequestWindowMs (handleIncomingMessage E now f s) = syncRequestWindowMs s"
  "localSeqNum (handleIncomingMessage E now f s) = localSeqNum s"
  by (cases f; simp add: handleVerified_def handlePlainSync_def
        Let_def split: option.splits prod.splits)+

lemma clearOwnTimers_fields [simp]:
  "maxSyncRequestsPerWindow (clearOwnTimers s) = maxSyncRequestsPerWindow s"
  "syncRequestWindowMs (clearOwnTimers s) = syncRequestWindowMs s"
  "remoteSeqNums (clearOwnTimers s) = remoteSeqNums s"
  "localSeqNum (clearOwnTimers s) = localSeqNum s"
  "synced (clearOwnTimers s) = synced s"
  "trace (clearOwnTimers s) = trace s"
  by (simp_all add: clearOwnTimers_def Let_def split: option.splits)

lemma disconnect_fields [simp]:
  "maxSyncRequestsPerWindow (disconnect E s) = maxSyncRequestsPerWindow s"
  "syncRequestWindowMs (disconnect E s) = syncRequestWindowMs s"
  "remoteSeqNums (disconnect E s) = remoteSeqNums s"
  "localSeqNum (disconnect E s) = localSeqNum s"
  by (simp_all add: disconnect_def Let_def split: prod.splits)

lemma destroy_fields [simp]:
  "maxSyncRequestsPerWindow (destroy E s) = maxSyncRequestsPerWindow s"
  "syncRequestWindowMs (destroy E s) = syncRequestWindowMs s"
  "remoteSeqNums (destroy E s) = remoteSeqNums s"
  "localSeqNum (destroy E s) = localSeqNum s"
  by (simp_all add: destroy_def Let_def)

lemma batchUpdate_fields [simp]:
  "maxSyncRequestsPerWindow (batchUpdate E u s) = maxSyncRequestsPerWindow s"
  "syncRequestWindowMs (batchUpdate E u s) = syncRequestWindowMs s"
  "remoteSeqNums (batchUpdate E u s) = remoteSeqNums s"
  "localSeqNum (batchUpdate E u s) = localSeqNum s"
  "synced (batchUpdate E u s) = synced s"
  "trace (batchUpdate E u s) = trace s"
  by (simp_all add: batchUpdate_def Let_def split: option.splits)

lemma onDocUpdate_fields [simp]:
  "maxSyncRequestsPerWindow (stateOf (onDocUpdate E u b s)) = maxSyncRequestsPerWindow s"
  "syncRequestWindowMs (stateOf (onDocUpdate E u b s)) = syncRequestWindowMs s"
  "remoteSeqNums (stateOf (onDocUpdate E u b s)) = remoteSeqNums s"
  "synced (stateOf (onDocUpdate E u b s)) = synced s"
  by (simp_all add: onDocUpdate_def)

lemma stateOf_ReturnedD: "r = Returned x \<Longrightarrow> x = stateOf r"
  by simp

lemma stateOf_ThrewD: "r = Threw e x \<Longrightarrow> x = stateOf r"
  by simp

lemma fireTimer_fields [simp]:
  "maxSyncRequestsPerWindow (stateOf (fireTimer E now i s)) = maxSyncRequestsPerWindow s"
  "syncRequestWindowMs (stateOf (fireTimer E now i s)) = syncRequestWindowMs s"
  "remoteSeqNums (stateOf (fireTimer E now i s)) = remoteSeqNums s"
  "synced (stateOf (fireTimer E now i s)) = synced s"
  by (auto simp: fireTimer_def Let_def split: option.splits timer_kind.splits outcome.splits
        dest!: stateOf_ReturnedD stateOf_ThrewD)

lemma connect_fields [simp]:
  "maxSyncRequestsPerWindow (stateOf (connectBegin cfg s)) = maxSyncRequestsPerWindow s"
  "syncRequestWindowMs (stateOf (connectBegin cfg s)) = syncRequestWindowMs s"
  "remoteSeqNums (stateOf (connectBegin cfg s)) = remoteSeqNums s"
  "localSeqNum (stateOf (connectBegin cfg s)) = localSeqNum s"
  "synced (stateOf (connectBegin cfg s)) = synced s"
  "maxSyncRequestsPerWindow (stateOf (connectSettled E now r s)) = maxSyncRequestsPerWindow s"
  "syncRequestWindowMs (stateOf (connectSettled E now r s)) = syncRequestWindowMs s"
  "remoteSeqNums (stateOf (connectSettled E now r s)) = remoteSeqNums s"
  "localSeqNum (stateOf (connectSettled E now r s)) = localSeqNum s"
  "synced (stateOf (connectSettled E now r s)) = synced s"
  by (simp_all add: connectBegin_def connectSettled_def Let_def split: settled.splits)

lemma syncNow_fields [simp]:
  "maxSyncRequestsPerWindow (stateOf (syncNow E now s)) = maxSyncRequestsPerWindow s"
  "syncRequestWindowMs (stateOf (syncNow E now s)) = syncRequestWindowMs s"
  "remoteSeqNums (stateOf (syncNow E now s)) = remoteSeqNums s"
  "synced (stateOf (syncNow E now s)) = synced s"
  by (auto simp: syncNow_def Let_def split: outcome.splits if_splits
        dest!: stateOf_ReturnedD stateOf_ThrewD)

lemma limits_step:
  "maxSyncRequestsPerWindow (stateOf (step E now x s)) = maxSyncRequestsPerWindow s \<and>
   syncRequestWindowMs (stateOf (step E now x s)) = syncRequestWindowMs s"
  by (cases x) (simp_all add: subscribe_def unsubscribe_def Let_def)

lemma warnings_simps [simp]:
  "warnings [] = []"
  "warnings (xs @ ys) = warnings xs @ warnings ys"
  "warnings (Warn w # xs) = w # warnings xs"
  "warnings (TransportSend f # xs) = warnings xs"
  "warnings (LogError l # xs) = warnings xs"
  "warnings (EmitStatus st # xs) = warnings xs"
  "warnings (EmitSynced b # xs) = warnings xs"
  "warnings (Invoked i c m t # xs) = warnings xs"
  "warnings (TransportConnect cfg # xs) = warnings xs"
  "warnings (TransportOnMessage # xs) = warnings xs"
  "warnings (TransportUnsubscribe # xs) = warnings xs"
  "warnings (TransportDisconnect # xs) = warnings xs"
  by (simp_all add: warnings_def)

lemma send_trace [simp]:
  "sentFrames (trace (send f s)) = sentFrames (trace s) @ (if isConnected s then [f] else [])"
  "warnings (trace (send f s)) = warnings (trace s)"
  by (simp_all add: send_def split: option.splits)

lemma send_env [simp]:
  "isConnected (send f s) = isConnected s"
  "sendThrows (send f s) = sendThrows s"
  "doc (send f s) = doc s"
  "syncRequestTimes (send f s) = syncRequestTimes s"
  by (simp_all add: send_def emit_def split: option.splits)

lemma emit_env [simp]:
  "isConnected (emit e s) = isConnected s"
  "sendThrows (emit e s) = sendThrows s"
  "doc (emit e s) = doc s"
  "syncRequestTimes (emit e s) = syncRequestTimes s"
  by (simp_all add: emit_def)

lemma sendSyncStep1_env [simp]:
  "isConnected (sendSyncStep1 E now s) = isConnected s"
  "sendThrows (sendSyncStep1 E now s) = sendThrows s"
  "doc (sendSyncStep1 E now s) = doc s"
  by (simp_all add: sendSyncStep1_def Let_def)

lemma sendSyncStep1_effect:
  "syncRequestTimes (sendSyncStep1 E now s) =
     (let kept = filter (\<lambda>t. now - t < syncRequestWindowMs s) (syncRequestTimes s)
      in if maxSyncRequestsPerWindow s \<le> length kept then kept else kept @ [now])"
  "warnings (trace (sendSyncStep1 E now s)) =
     warnings (trace s) @
     (if maxSyncRequestsPerWindow s
           \<le> length (filter (\<lambda>t. now - t < syncRequestWindowMs s) (syncRequestTimes s))
      then [WarnRateLimit] else [])"
  "sentFrames (trace (sendSyncStep1 E now s)) =
     sentFrames (trace s) @
     (if maxSyncRequestsPerWindow s
           \<le> length (filter (\<lambda>t. now - t < syncRequestWindowMs s) (syncRequestTimes s))
         \<or> \<not> isConnected s
      then [] else [OutSyncStep1 (encodeStateVector E (doc s))])"
  by (simp_all add: sendSyncStep1_def Let_def)

lemma limits_run:
  "maxSyncRequestsPerWindow (run E ops s) = maxSyncRequestsPerWindow s \<and>
   syncRequestWindowMs (run E ops s) = syncRequestWindowMs s"
  by (induction ops arbitrary: s) (auto simp: limits_step)

lemma limits_reachable:
  "maxSyncRequestsPerWindow (run E ops (newProvider E d c thr opts)) = 20"
  "syncRequestWindowMs (run E ops (newProvider E d c thr opts)) = 10000"
  by (simp_all add: limits_run) (simp_all add: newProvider_def)

lemma sendSyncStep1_burst:
  assumes lim: "maxSyncRequestsPerWindow s = 20" "syncRequestWindowMs s = 10000"
    and old: "\<forall>t \<in> set (syncRequestTimes s). 10000 \<le> now - t"
    and con: "isConnected s"
  shows "filter (\<lambda>t. now - t < 10000) (syncRequestTimes ((sendSyncStep1 E now ^^ k) s))
           = replicate (min k 20) now \<and>
         sentFrames (trace ((sendSyncStep1 E now ^^ k) s)) =
           sentFrames (trace s) @ replicate (min k 20) (OutSyncStep1 (encodeStateVector E (doc s))) \<and>
         warnings (trace ((sendSyncStep1 E now ^^ k) s)) =
           warnings (trace s) @ replicate (k - 20) WarnRateLimit \<and>
         isConnected ((sendSyncStep1 E now ^^ k) s) \<and>
         doc ((sendSyncStep1 E now ^^ k) s) = doc s \<and>
         maxSyncRequestsPerWindow ((sendSyncStep1 E now ^^ k) s) = 20 \<and>
         syncRequestWindowMs ((sendSyncStep1 E now ^^ k) s) = 10000"
proof (induction k)
  case 0
  have "filter (\<lambda>t. now - t < 10000) (syncRequestTimes s) = []"
    using old by (auto simp: filter_empty_conv)
  then show ?case using lim con by simp
next
  case (Suc k)
  let ?sk = "(sendSyncStep1 E now ^^ k) s"
  have kept: "filter (\<lambda>t. now - t < 10000) (replicate (min k 20) now) = replicate (min k 20) now"
    by simp
  note idem = filter_filter [of "\<lambda>t. now - t < 10000" "\<lambda>t. now - t < 10000", simplified]
  show ?case
  proof (cases "k < 20")
    case True
    then show ?thesis using Suc kept
      by (simp add: sendSyncStep1_effect Let_def min_def replicate_append_same)
  next
    case False
    then have "Suc k - 20 = Suc (k - 20)" by simp
    then show ?thesis using Suc kept False
      by (simp add: sendSyncStep1_effect Let_def min_def replicate_append_same)
  qed
qed

section \<open>C3: the rate limiter of resync requests\<close>

text \<open>
  Claim C3, as amended. For a provider in any state reachable from its constructor,
  an attempt to emit a resync request at time \<open>now\<close> first drops every recorded
  timestamp \<open>t\<close> with \<open>now - t \<ge> 10000\<close> (it keeps those with \<open>now - t < 10000\<close>). If at
  least 20 timestamps are kept, the request is dropped: a warning is logged, nothing is
  handed to the transport and no timestamp is recorded. Otherwise \<open>now\<close> is recorded
  and, when the transport is connected, exactly one plain SYNC SyncStep1 frame is handed
  to it (none when it is not connected); no warning is logged. Consequently, on a
  connected transport whose window holds no timestamp younger than 10000 ms, 25
  requests at the same instant send exactly 20 frames and log exactly 5 warnings.
\<close>

theorem C3_resync_requests_rate_limited:
  assumes reach: "s = run E ops (newProvider E d c thr opts)"
  shows
    "(let kept = filter (\<lambda>t. now - t < 10000) (syncRequestTimes s);
          s' = sendSyncStep1 E now s
      in if 20 \<le> length kept
         then syncRequestTimes s' = kept \<and>
              sentFrames (trace s') = sentFrames (trace s) \<and>
              warnings (trace s') = warnings (trace s) @ [WarnRateLimit]
         else syncRequestTimes s' = kept @ [now] \<and>
              warnings (trace s') = warnings (trace s) \<and>
              sentFrames (trace s') =
                sentFrames (trace s) @
                (if isConnected s then [OutSyncStep1 (encodeStateVector E (doc s))] else []))
     \<and> (isConnected s \<and> (\<forall>t \<in> set (syncRequestTimes s). 10000 \<le> now - t) \<longrightarrow>
          sentFrames (trace ((sendSyncStep1 E now ^^ 25) s)) =
            sentFrames (trace s) @ replicate 20 (OutSyncStep1 (encodeStateVector E (doc s))) \<and>
          warnings (trace ((sendSyncStep1 E now ^^ 25) s)) =
            warnings (trace s) @ replicate 5 WarnRateLimit)"
proof -
  have lim: "maxSyncRequestsPerWindow s = 20" "syncRequestWindowMs s = 10000"
    using reach by (simp_all add: limits_reachable)
  have one: "(let kept = filter (\<lambda>t. now - t < 10000) (syncRequestTimes s);
          s' = sendSyncStep1 E now s
      in if 20 \<le> length kept
         then syncRequestTimes s' = kept \<and>
              sentFrames (trace s') = sentFrames (trace s) \<and>
              warnings (trace s') = warnings (trace s) @ [WarnRateLimit]
         else syncRequestTimes s' = kept @ [now] \<and>
              warnings (trace s') = warnings (trace s) \<and>
              sentFrames (trace s') =
                sentFrames (trace s) @
                (if isConnected s then [OutSyncStep1 (encodeStateVector E (doc s))] else []))"
    by (simp add: sendSyncStep1_effect lim Let_def)
  have many: "sentFrames (trace ((sendSyncStep1 E now ^^ 25) s)) =
            sentFrames (trace s) @ replicate 20 (OutSyncStep1 (encodeStateVector E (doc s))) \<and>
          warnings (trace ((sendSyncStep1 E now ^^ 25) s)) =
            warnings (trace s) @ replicate 5 WarnRateLimit"
    if "isConnected s" "\<forall>t \<in> set (syncRequestTimes s). 10000 \<le> now - t"
    using sendSyncStep1_burst [OF lim that(2) that(1), where k = 25 and E = E] by simp
  show ?thesis using one many by blast
qed

text \<open>The new provider is reachable by the empty run.\<close>

lemma demoProvider_reachable:
  "demoProvider = run demoEngine [] (newProvider demoEngine (7, [1, 2, 3]) True None demoOptions)"
  by (simp add: demoProvider_def)

text \<open>
  Witness of C3 on the new provider of replica 7: one request is recorded and sent,
  25 at one instant give 20 frames and 5 warnings.
\<close>

theorem C3_resync_requests_rate_limited_witness:
  "syncRequestTimes (sendSyncStep1 demoEngine 1700000000000 demoProvider) = [1700000000000] \<and>
   sentFrames (trace (sendSyncStep1 demoEngine 1700000000000 demoProvider)) = [OutSyncStep1 [1, 2, 3]] \<and>
   sentFrames (trace ((sendSyncStep1 demoEngine 1700000000000 ^^ 25) demoProvider)) =
     replicate 20 (OutSyncStep1 [1, 2, 3]) \<and>
   warnings (trace ((sendSyncStep1 demoEngine 1700000000000 ^^ 25) demoProvider)) =
     replicate 5 WarnRateLimit"
proof -
  have st: "syncRequestTimes demoProvider = []" "isConnected demoProvider"
    "trace demoProvider = []" "encodeStateVector demoEngine (doc demoProvider) = [1, 2, 3]"
    by (simp_all add: demoProvider_def newProvider_def demoEngine_def)
  show ?thesis
    using C3_resync_requests_rate_limited [OF demoProvider_reachable, where now = 1700000000000]
    by (simp add: st Let_def)
qed

text \<open>
  Claim C3 as stated fails in three places. After 20 requests at one instant, a request
  exactly 10000 ms later finds 20 timestamps that are not older than 10000 ms, and it
  is sent all the same, with no warning: a timestamp of age 10000 is already pruned.
  On a transport that is not connected a request that is not rate limited is
  recorded, and no frame is sent. And 25 requests at one instant, 100 ms after
  \<open>connect()\<close> issued its own request, give 19 frames and 6 warnings.
\<close>

theorem C3_counterexample:
  "length (filter (\<lambda>t. \<not> 10000 < 1700000010000 - t)
            (syncRequestTimes ((sendSyncStep1 demoEngine 1700000000000 ^^ 20) demoProvider))) = 20 \<and>
   sentFrames (trace (sendSyncStep1 demoEngine 1700000010000
                        ((sendSyncStep1 demoEngine 1700000000000 ^^ 20) demoProvider))) =
     replicate 21 (OutSyncStep1 [1, 2, 3]) \<and>
   warnings (trace (sendSyncStep1 demoEngine 1700000010000
                        ((sendSyncStep1 demoEngine 1700000000000 ^^ 20) demoProvider))) = [] \<and>
   syncRequestTimes (sendSyncStep1 demoEngine 1700000000000 demoOffline) = [1700000000000] \<and>
   warnings (trace (sendSyncStep1 demoEngine 1700000000000 demoOffline)) = [] \<and>
   sentFrames (trace (sendSyncStep1 demoEngine 1700000000000 demoOffline)) = [] \<and>
   syncRequestTimes demoConnected = [1700000000000] \<and>
   sentFrames (trace ((sendSyncStep1 demoEngine 1700000000100 ^^ 25) demoConnected)) =
     sentFrames (trace demoConnected) @ replicate 19 (OutSyncStep1 [1, 2, 3]) \<and>
   warnings (trace ((sendSyncStep1 demoEngine 1700000000100 ^^ 25) demoConnected)) =
     replicate 6 WarnRateLimit"
  by (simp add: eval_nat_numeral sendSyncStep1_def send_def emit_def Let_def demoProvider_def
        demoOffline_def demoConnected_def connectBegin_def connectSettled_def setStatus_def
        setTimer_def broadcastAwareness_def newProvider_def demoEngine_def demoOptions_def)

section \<open>C1: backoff after a digest mismatch\<close>


lemma send_timer_fields [simp]:
  "hashMismatchCount (send f s) = hashMismatchCount s"
  "lastHashMismatchTime (send f s) = lastHashMismatchTime s"
  "timers (send f s) = timers s"
  "nextTimerId (send f s) = nextTimerId s"
  by (simp_all add: send_def emit_def split: option.splits)

lemma emit_timer_fields [simp]:
  "hashMismatchCount (emit e s) = hashMismatchCount s"
  "lastHashMismatchTime (emit e s) = lastHashMismatchTime s"
  "timers (emit e s) = timers s"
  "nextTimerId (emit e s) = nextTimerId s"
  by (simp_all add: emit_def)





text \<open>The definitions to unfold when a statement is evaluated on the small engine.\<close>

lemmas demo_defs =
  demoProvider_def demoOffline_def newProvider_def demoEngine_def demoOptions_def
  demoRead_def demoApply_def

lemmas eval_defs =
  emit_def send_def setStatus_def setTimer_def clearTimer_def sendSyncStep1_def sendUpdate_def
  broadcastAwareness_def sendPubSub_def awarenessChanged_def verifyHash_def backoffDelay_def
  handleVerified_def handlePlainSync_def computeDocHash_def hashBytes_def hashStep_def
  messageYjsSyncStep2_def lastSeen_def Let_def




text \<open>
  A burst on the small engine: after connecting (the periodic timer of 5000 ms), seven
  mismatching frames one second apart, and an eighth eleven seconds after the seventh.
\<close>

lemma backoff_burst_demo:
  "map delay (timers (run demoEngine
     [(1700000000000, OpConnectSettled Resolved),
      (1700000001000, OpIncoming (InSyncVerified 5 9 [2, 4] (Some 0))),
      (1700000002000, OpIncoming (InSyncVerified 6 9 [2, 4] (Some 0))),
      (1700000003000, OpIncoming (InSyncVerified 7 9 [2, 4] (Some 0))),
      (1700000004000, OpIncoming (InSyncVerified 8 9 [2, 4] (Some 0))),
      (1700000005000, OpIncoming (InSyncVerified 9 9 [2, 4] (Some 0))),
      (1700000006000, OpIncoming (InSyncVerified 10 9 [2, 4] (Some 0))),
      (1700000007000, OpIncoming (InSyncVerified 11 9 [2, 4] (Some 0))),
      (1700000018000, OpIncoming (InSyncVerified 12 9 [2, 4] (Some 0)))]
     demoProvider)) = [5000, 10, 50, 250, 1250, 6250, 10000, 10000, 10]"
  by (simp add: connectSettled_def eval_defs demo_defs)

section \<open>C2: the sequence tracker\<close>

lemma handleVerified_skipped:
  "int n \<le> lastSeen s c \<Longrightarrow>
   handleVerified E now n c payload hf s = emit (Warn (WarnDuplicate c n (lastSeen s c))) s"
  by (simp add: handleVerified_def Let_def)

lemma handleVerified_remoteSeqNums:
  "remoteSeqNums (handleVerified E now n c payload hf s) =
     (if lastSeen s c < int n then (remoteSeqNums s)(c \<mapsto> n) else remoteSeqNums s)"
  by (simp add: handleVerified_def Let_def split: option.splits prod.splits)

lemma handleIncoming_remoteSeqNums:
  "remoteSeqNums (handleIncomingMessage E now f s) =
     (case f of
        InSyncVerified n c payload hf \<Rightarrow>
          if lastSeen s c < int n then (remoteSeqNums s)(c \<mapsto> n) else remoteSeqNums s
      | _ \<Rightarrow> remoteSeqNums s)"
  by (cases f)
     (simp_all add: handleVerified_remoteSeqNums handlePlainSync_def
        Let_def split: option.splits prod.splits)

lemma lastSeen_handleIncoming:
  "lastSeen s c \<le> lastSeen (handleIncomingMessage E now f s) c"
  unfolding lastSeen_def handleIncoming_remoteSeqNums
  by (auto split: in_frame.splits option.splits)

lemma lastSeen_step: "lastSeen s c \<le> lastSeen (stateOf (step E now x s)) c"
proof (cases x)
  case (OpIncoming f)
  then show ?thesis using lastSeen_handleIncoming [of s c E now f] by simp
qed (simp_all add: lastSeen_def subscribe_def unsubscribe_def Let_def)

lemma lastSeen_run: "lastSeen s c \<le> lastSeen (run E ops s) c"
proof (induction ops arbitrary: s)
  case Nil
  show ?case by simp
next
  case (Cons a ops)
  obtain now x where a: "a = (now, x)" by (cases a)
  have "lastSeen s c \<le> lastSeen (stateOf (step E now x s)) c" by (rule lastSeen_step)
  also have "\<dots> \<le> lastSeen (run E ops (stateOf (step E now x s))) c" by (rule Cons.IH)
  finally show ?case by (simp add: a)
qed

lemma handleVerified_doc:
  "doc (handleVerified E now n c payload hf s) =
     (if int n \<le> lastSeen s c then doc s
      else case readSyncMessage E payload (doc s) of
             None \<Rightarrow> doc s
           | Some (ty, reply, d') \<Rightarrow> d')"
  by (simp add: handleVerified_def verifyHash_def setTimer_def send_def emit_def Let_def
        split: option.splits prod.splits)

lemma handleVerified_gap_logged:
  assumes "0 \<le> lastSeen s c" "lastSeen s c + 1 < int n"
  shows "\<exists>rest. warnings (trace (handleVerified E now n c payload hf s)) =
           warnings (trace s) @
           WarnGap c (nat (lastSeen s c + 1)) n (int n - lastSeen s c - 1) # rest"
  using assms
  by (simp add: handleVerified_def verifyHash_def setTimer_def send_def emit_def Let_def
        split: option.splits prod.splits)

text \<open>
  Claim C2. For every received verified sync frame with sender \<open>c\<close> and sequence
  number \<open>n\<close>, and \<open>last = lastSeen[c]\<close> (\<open>-1\<close> when \<open>c\<close> is not in the tracker): if
  \<open>n \<le> last\<close> the document is not touched and the tracker is unchanged; if \<open>last \<ge> 0\<close>
  and \<open>n > last + 1\<close> a gap of \<open>n - last - 1\<close> messages (expected \<open>last + 1\<close>, got \<open>n\<close>)
  is logged and the document is the one the engine's reader returns for the payload;
  whenever \<open>n > last\<close> the tracker maps \<open>c\<close> to \<open>n\<close>. And over any run of operations
  of the provider, inbound frames included, the value stored for a sender never
  decreases.
\<close>

theorem C2_sequence_tracker:
  "(let s' = handleIncomingMessage E now (InSyncVerified n c payload hf) s;
        last = lastSeen s c
    in (int n \<le> last \<longrightarrow> doc s' = doc s \<and> remoteSeqNums s' = remoteSeqNums s) \<and>
       (0 \<le> last \<and> last + 1 < int n \<longrightarrow>
          (\<exists>rest. warnings (trace s') =
                    warnings (trace s) @ WarnGap c (nat (last + 1)) n (int n - last - 1) # rest) \<and>
          (\<forall>ty reply d'. readSyncMessage E payload (doc s) = Some (ty, reply, d') \<longrightarrow> doc s' = d')) \<and>
       (last < int n \<longrightarrow> remoteSeqNums s' = (remoteSeqNums s)(c \<mapsto> n) \<and> lastSeen s' c = int n)) \<and>
   (\<forall>ops c'. lastSeen s c' \<le> lastSeen (run E ops s) c')"
proof -
  let ?s' = "handleVerified E now n c payload hf s"
  have dup: "doc ?s' = doc s \<and> remoteSeqNums ?s' = remoteSeqNums s" if "int n \<le> lastSeen s c"
    using that by (simp add: handleVerified_skipped)
  have gap: "(\<exists>rest. warnings (trace ?s') =
                    warnings (trace s) @
                    WarnGap c (nat (lastSeen s c + 1)) n (int n - lastSeen s c - 1) # rest) \<and>
          (\<forall>ty reply d'. readSyncMessage E payload (doc s) = Some (ty, reply, d') \<longrightarrow> doc ?s' = d')"
    if "0 \<le> lastSeen s c" "lastSeen s c + 1 < int n"
    using that handleVerified_gap_logged [OF that, of E now payload hf]
    by (simp add: handleVerified_doc)
  have acc: "remoteSeqNums ?s' = (remoteSeqNums s)(c \<mapsto> n) \<and> lastSeen ?s' c = int n"
    if "lastSeen s c < int n"
    using that by (simp add: handleVerified_remoteSeqNums lastSeen_def)
  have mono: "\<forall>ops c'. lastSeen s c' \<le> lastSeen (run E ops s) c'"
    by (simp add: lastSeen_run)
  show ?thesis
    unfolding Let_def handleIncomingMessage.simps
    using dup gap acc mono by (intro conjI impI; (elim conjE)?) simp_all
qed

text \<open>
  Witness of C2 on the provider that has seen sequence number 5 of replica 9: number 8
  is a gap of 2, logged and merged, and the tracker moves to 8; number 4 is skipped.
\<close>

theorem C2_sequence_tracker_witness:
  "lastSeen demoAfterMismatch 9 = 5 \<and>
   readSyncMessage demoEngine [2, 6] (doc demoAfterMismatch) = Some (2, [], (7, [1, 2, 3, 4, 6])) \<and>
   doc (handleIncomingMessage demoEngine 1700000000100
          (InSyncVerified 8 9 [2, 6] (Some 0)) demoAfterMismatch) = (7, [1, 2, 3, 4, 6]) \<and>
   remoteSeqNums (handleIncomingMessage demoEngine 1700000000100
          (InSyncVerified 8 9 [2, 6] (Some 0)) demoAfterMismatch) 9 = Some 8 \<and>
   warnings (trace (handleIncomingMessage demoEngine 1700000000100
          (InSyncVerified 8 9 [2, 6] (Some 0)) demoAfterMismatch)) =
     [WarnHashMismatch 1 31810 0, WarnResyncScheduled 10, WarnGap 9 6 8 2,
      WarnHashMismatch 2 986116 0, WarnResyncScheduled 50] \<and>
   doc (handleIncomingMessage demoEngine 1700000000100
          (InSyncVerified 4 9 [2, 6] (Some 0)) demoAfterMismatch) = (7, [1, 2, 3, 4]) \<and>
   remoteSeqNums (handleIncomingMessage demoEngine 1700000000100
          (InSyncVerified 4 9 [2, 6] (Some 0)) demoAfterMismatch) 9 = Some 5"
  using C2_sequence_tracker [where s = demoAfterMismatch and E = demoEngine and n = 8 and c = 9
          and payload = "[2, 6]" and hf = "Some 0" and now = 1700000000100]
        C2_sequence_tracker [where s = demoAfterMismatch and E = demoEngine and n = 4 and c = 9
          and payload = "[2, 6]" and hf = "Some 0" and now = 1700000000100]
  by (simp add: demoAfterMismatch_def demoFrame_def eval_defs demo_defs)

section \<open>C4 and C9: the synced flag\<close>

lemma handlePlainSync_synced:
  "synced (handlePlainSync E payload s) =
     (synced s \<or> (\<exists>reply d'. readSyncMessage E payload (doc s) = Some (messageYjsSyncStep2, reply, d')))"
  by (auto simp: handlePlainSync_def Let_def split: option.splits prod.splits)

lemma handleVerified_synced:
  "synced (handleVerified E now n c payload hf s) =
     (synced s \<or>
      (lastSeen s c < int n \<and>
       (\<exists>reply d'. readSyncMessage E payload (doc s) = Some (messageYjsSyncStep2, reply, d') \<and>
                    hf = Some (computeDocHash E d'))))"
  by (auto simp: handleVerified_def Let_def split: option.splits prod.splits)

lemma handleIncoming_synced:
  "synced (handleIncomingMessage E now f s) =
     (synced s \<or>
      (case f of
         InSync payload \<Rightarrow>
           \<exists>reply d'. readSyncMessage E payload (doc s) = Some (messageYjsSyncStep2, reply, d')
       | InSyncVerified n c payload hf \<Rightarrow>
           lastSeen s c < int n \<and>
           (\<exists>reply d'. readSyncMessage E payload (doc s) = Some (messageYjsSyncStep2, reply, d') \<and>
                        hf = Some (computeDocHash E d'))
       | _ \<Rightarrow> False))"
  by (cases f)
     (simp_all add: handlePlainSync_synced handleVerified_synced split: option.splits prod.splits)

lemma disconnect_synced [simp]: "\<not> synced (disconnect E s)"
  by (simp add: disconnect_def Let_def split: prod.splits)

lemma destroy_synced [simp]: "\<not> synced (destroy E s)"
  by (simp add: destroy_def Let_def)

lemma step_synced:
  "synced (stateOf (step E now x s)) =
     (case x of
        OpDisconnect \<Rightarrow> False
      | OpDestroy \<Rightarrow> False
      | OpIncoming f \<Rightarrow>
          if unsubscribeTransport s then synced (handleIncomingMessage E now f s) else synced s
      | _ \<Rightarrow> synced s)"
  by (cases x) (simp_all add: subscribe_def unsubscribe_def Let_def)

text \<open>
  Claim C4. In every state, if an operation of the provider turns the synced flag
  from false to true, the operation is the handling of an inbound frame whose sync
  payload the engine reads as the final handshake step (SyncStep2): either a plain sync
  frame, which carries no digest, or a verified frame that passed the sequence check
  and whose attached digest equals the digest computed locally after the merge. And a
  verified frame whose digest differs from the local post-merge digest leaves the flag
  as it is, whatever sync step it carries.
\<close>

theorem C4_synced_only_after_verified_handshake:
  "(\<not> synced s \<and> synced (stateOf (step E now x s)) \<longrightarrow>
      (\<exists>payload reply d'.
          x = OpIncoming (InSync payload) \<and>
          readSyncMessage E payload (doc s) = Some (messageYjsSyncStep2, reply, d')) \<or>
      (\<exists>n c payload h reply d'.
          x = OpIncoming (InSyncVerified n c payload (Some h)) \<and>
          lastSeen s c < int n \<and>
          readSyncMessage E payload (doc s) = Some (messageYjsSyncStep2, reply, d') \<and>
          h = computeDocHash E d')) \<and>
   (readSyncMessage E payload (doc s) = Some (ty, reply, d') \<and> h \<noteq> computeDocHash E d' \<longrightarrow>
      synced (handleIncomingMessage E now (InSyncVerified n c payload (Some h)) s) = synced s)"
proof -
  have only: "(\<exists>payload reply d'.
          x = OpIncoming (InSync payload) \<and>
          readSyncMessage E payload (doc s) = Some (messageYjsSyncStep2, reply, d')) \<or>
      (\<exists>n c payload h reply d'.
          x = OpIncoming (InSyncVerified n c payload (Some h)) \<and>
          lastSeen s c < int n \<and>
          readSyncMessage E payload (doc s) = Some (messageYjsSyncStep2, reply, d') \<and>
          h = computeDocHash E d')"
    if "\<not> synced s" "synced (stateOf (step E now x s))"
  proof -
    from that(2) have st:
      "case x of
         OpDisconnect \<Rightarrow> False
       | OpDestroy \<Rightarrow> False
       | OpIncoming f \<Rightarrow>
           if unsubscribeTransport s then synced (handleIncomingMessage E now f s) else synced s
       | _ \<Rightarrow> synced s"
      unfolding step_synced .
    show ?thesis
    proof (cases x)
      case (OpIncoming f)
      with st that(1) have "synced (handleIncomingMessage E now f s)"
        by (simp split: if_splits)
      with that(1) OpIncoming show ?thesis
        unfolding handleIncoming_synced by (cases f) auto
    qed (use st that(1) in simp_all)
  qed
  have suppressed:
    "synced (handleIncomingMessage E now (InSyncVerified n c payload (Some h)) s) = synced s"
    if "readSyncMessage E payload (doc s) = Some (ty, reply, d')" "h \<noteq> computeDocHash E d'"
    using that unfolding handleIncoming_synced by auto
  show ?thesis using only suppressed by blast
qed

text \<open>
  Witness of C4: the connected provider becomes synced by a plain SyncStep2 frame, and
  stays unsynced on a verified SyncStep2 frame whose digest 0 is not the local one.
\<close>

theorem C4_synced_only_after_verified_handshake_witness:
  "\<not> synced demoConnected \<and>
   synced (stateOf (step demoEngine 1700000000050 (OpIncoming (InSync [1, 5])) demoConnected)) \<and>
   readSyncMessage demoEngine [1, 5] (doc demoConnected) =
     Some (messageYjsSyncStep2, [], (7, [1, 2, 3, 5])) \<and>
   computeDocHash demoEngine (7, [1, 2, 3, 5]) \<noteq> 0 \<and>
   \<not> synced (handleIncomingMessage demoEngine 1700000000050
                 (InSyncVerified 1 9 [1, 5] (Some 0)) demoConnected)"
proof -
  have read: "readSyncMessage demoEngine [1, 5] (doc demoConnected) =
     Some (messageYjsSyncStep2, [], (7, [1, 2, 3, 5]))"
    and st: "\<not> synced demoConnected" "unsubscribeTransport demoConnected"
    and hash: "computeDocHash demoEngine (7, [1, 2, 3, 5]) \<noteq> 0"
    by (simp_all add: demoConnected_def connectBegin_def connectSettled_def eval_defs demo_defs)
  have now: "synced (stateOf (step demoEngine 1700000000050 (OpIncoming (InSync [1, 5])) demoConnected))"
    using read st by (simp add: handlePlainSync_def Let_def)
  show ?thesis
    using C4_synced_only_after_verified_handshake
            [where s = demoConnected and E = demoEngine and now = 1700000000050
               and x = "OpIncoming (InSync [1, 5])" and payload = "[1, 5]" and h = 0
               and ty = messageYjsSyncStep2 and reply = "[]" and d' = "(7, [1, 2, 3, 5])"
               and n = 1 and c = 9]
          read st hash now
    by simp
qed

lemma run_synced:
  "synced s \<Longrightarrow> \<forall>p \<in> set ops. snd p \<noteq> OpDisconnect \<and> snd p \<noteq> OpDestroy \<Longrightarrow>
   synced (run E ops s)"
proof (induction ops arbitrary: s)
  case Nil
  then show ?case by simp
next
  case (Cons a ops)
  obtain now x where a: "a = (now, x)" by (cases a)
  with Cons.prems have x: "x \<noteq> OpDisconnect" "x \<noteq> OpDestroy" by auto
  have "synced (stateOf (step E now x s))"
    unfolding step_synced handleIncoming_synced
    using x Cons.prems(1) by (cases x) simp_all
  then show ?case using Cons a by simp
qed

text \<open>
  Claim C9. Once the synced flag is true, no inbound frame of any kind sets it back to
  false, and no operation of the provider other than \<open>disconnect()\<close> and \<open>destroy()\<close>
  (which calls \<open>disconnect()\<close>) does either, over a single operation and over any run of
  operations; both \<open>disconnect()\<close> and \<open>destroy()\<close> leave the flag false.
\<close>

theorem C9_synced_stays_until_disconnect:
  "(synced s \<longrightarrow> synced (handleIncomingMessage E now f s)) \<and>
   (synced s \<and> x \<noteq> OpDisconnect \<and> x \<noteq> OpDestroy \<longrightarrow> synced (stateOf (step E now x s))) \<and>
   (synced s \<and> (\<forall>p \<in> set ops. snd p \<noteq> OpDisconnect \<and> snd p \<noteq> OpDestroy) \<longrightarrow>
      synced (run E ops s)) \<and>
   \<not> synced (disconnect E s) \<and> \<not> synced (destroy E s)"
proof -
  have one: "synced (stateOf (step E now x s))"
    if "synced s" "x \<noteq> OpDisconnect" "x \<noteq> OpDestroy"
    using run_synced [of s "[(now, x)]" E] that by simp
  show ?thesis
    using one run_synced [of s ops E] by (simp add: handleIncoming_synced)
qed

text \<open>
  Witness of C9 on the synced provider: a verified frame with a wrong digest, the same
  frame again, and a frame after a gap, leave it synced; \<open>disconnect()\<close> resets it.
\<close>

theorem C9_synced_stays_until_disconnect_witness:
  "synced demoSynced \<and>
   synced (handleIncomingMessage demoEngine 1700000000100 demoFrame demoSynced) \<and>
   synced (run demoEngine
             [(1700000000100, OpIncoming demoFrame), (1700000000200, OpIncoming demoFrame),
              (1700000000300, OpIncoming (InSyncVerified 9 9 [2, 6] (Some 0))),
              (1700000000400, OpSyncNow)] demoSynced) \<and>
   \<not> synced (disconnect demoEngine demoSynced)"
proof -
  have st: "synced demoSynced"
    by (simp add: demoSynced_def demoConnected_def connectBegin_def connectSettled_def
          eval_defs demo_defs)
  show ?thesis
    using C9_synced_stays_until_disconnect
            [where s = demoSynced and E = demoEngine and now = 1700000000100 and f = demoFrame
               and x = OpSyncNow
               and ops = "[(1700000000100, OpIncoming demoFrame), (1700000000200, OpIncoming demoFrame),
                           (1700000000300, OpIncoming (InSyncVerified 9 9 [2, 6] (Some 0))),
                           (1700000000400, OpSyncNow)]"]
          st
    by simp
qed

section \<open>C10: the local sequence counter\<close>

lemma verifiedSeqNums_simps [simp]:
  "verifiedSeqNums [] = []"
  "verifiedSeqNums (xs @ ys) = verifiedSeqNums xs @ verifiedSeqNums ys"
  "verifiedSeqNums (OutSyncVerified n c u h # xs) = n # verifiedSeqNums xs"
  "verifiedSeqNums (OutSyncStep1 sv # xs) = verifiedSeqNums xs"
  "verifiedSeqNums (OutSyncReply r # xs) = verifiedSeqNums xs"
  "verifiedSeqNums (OutSyncUpdate u # xs) = verifiedSeqNums xs"
  "verifiedSeqNums (OutAwareness a # xs) = verifiedSeqNums xs"
  "verifiedSeqNums (OutPubSub t m # xs) = verifiedSeqNums xs"
  by (simp_all add: verifiedSeqNums_def)

lemma stamped_basic [simp]:
  "verifiedSeqNums (sentFrames (trace (send (OutSyncStep1 sv) s))) = verifiedSeqNums (sentFrames (trace s))"
  "verifiedSeqNums (sentFrames (trace (send (OutSyncReply r) s))) = verifiedSeqNums (sentFrames (trace s))"
  "verifiedSeqNums (sentFrames (trace (send (OutAwareness a) s))) = verifiedSeqNums (sentFrames (trace s))"
  "verifiedSeqNums (sentFrames (trace (send (OutPubSub t m) s))) = verifiedSeqNums (sentFrames (trace s))"
  by simp_all

lemma stamped_sendSyncStep1 [simp]:
  "verifiedSeqNums (sentFrames (trace (sendSyncStep1 E now s))) = verifiedSeqNums (sentFrames (trace s))"
  by (simp add: sendSyncStep1_effect)

lemma stamped_broadcastAwareness [simp]:
  "verifiedSeqNums (sentFrames (trace (broadcastAwareness E cs s))) = verifiedSeqNums (sentFrames (trace s))"
  by (simp add: broadcastAwareness_def)

lemma stamped_awarenessChanged [simp]:
  "verifiedSeqNums (sentFrames (trace (awarenessChanged E cs s))) = verifiedSeqNums (sentFrames (trace s))"
  by (simp add: awarenessChanged_def)

lemma stamped_sendPubSub [simp]:
  "verifiedSeqNums (sentFrames (trace (sendPubSub t m s))) = verifiedSeqNums (sentFrames (trace s))"
  by (simp add: sendPubSub_def)

lemma stamped_verifyHash [simp]:
  "verifiedSeqNums (sentFrames (trace (verifyHash E now l e s))) = verifiedSeqNums (sentFrames (trace s))"
  by (simp add: verifyHash_def Let_def)

lemma stamped_runCall [simp]:
  "verifiedSeqNums (sentFrames (trace (runCall c s))) = verifiedSeqNums (sentFrames (trace s))"
  by (cases c) (simp_all add: subscribe_def unsubscribe_def)

lemma stamped_runCalls [simp]:
  "verifiedSeqNums (sentFrames (trace (runCalls cs s))) = verifiedSeqNums (sentFrames (trace s))"
  by (induction cs arbitrary: s) simp_all

lemma stamped_invokeAll [simp]:
  "verifiedSeqNums (sentFrames (trace (stateOf (invokeAll E hs m t s)))) =
     verifiedSeqNums (sentFrames (trace s))"
  by (induction hs arbitrary: s) (simp_all add: Let_def split: prod.splits option.splits)

lemma stamped_handlePubSub [simp]:
  "verifiedSeqNums (sentFrames (trace (handlePubSub E topic payload s))) =
     verifiedSeqNums (sentFrames (trace s))"
  using handlePubSub_cases [of E topic payload s] by auto

lemma stamped_handleIncoming [simp]:
  "verifiedSeqNums (sentFrames (trace (handleIncomingMessage E now f s))) =
     verifiedSeqNums (sentFrames (trace s))"
  by (cases f)
     (simp_all add: handleVerified_def handlePlainSync_def
        Let_def split: option.splits prod.splits)

lemma stamped_disconnect [simp]:
  "verifiedSeqNums (sentFrames (trace (disconnect E s))) = verifiedSeqNums (sentFrames (trace s))"
  by (simp add: disconnect_def Let_def split: prod.splits)

lemma stamped_destroy [simp]:
  "verifiedSeqNums (sentFrames (trace (destroy E s))) = verifiedSeqNums (sentFrames (trace s))"
  by (simp add: destroy_def Let_def)

lemma stamped_connect [simp]:
  "verifiedSeqNums (sentFrames (trace (stateOf (connectBegin cfg s)))) = verifiedSeqNums (sentFrames (trace s))"
  "verifiedSeqNums (sentFrames (trace (stateOf (connectSettled E now r s)))) = verifiedSeqNums (sentFrames (trace s))"
  by (simp_all add: connectBegin_def connectSettled_def Let_def split: settled.splits)

lemma connect_localSeqNum [simp]:
  "localSeqNum (stateOf (connect E now cfg r s)) = localSeqNum s"
proof (cases "connectBegin cfg s")
  case (Returned s')
  then have "localSeqNum s' = localSeqNum s"
    using connect_fields(4) [of cfg s] by simp
  then show ?thesis using Returned by (simp add: connect_def)
next
  case (Threw e s')
  then have "localSeqNum s' = localSeqNum s"
    using connect_fields(4) [of cfg s] by simp
  then show ?thesis using Threw by (simp add: connect_def)
qed

lemma sendUpdate_stamp:
  "localSeqNum (stateOf (sendUpdate E u s)) = (if verifyUpdates s then localSeqNum s + 1 else localSeqNum s)"
  "sentFrames (trace (stateOf (sendUpdate E u s))) =
     sentFrames (trace s) @
     [if verifyUpdates s
      then OutSyncVerified (localSeqNum s) (clientID E (doc s)) u (computeDocHash E (doc s))
      else OutSyncUpdate u]"
  by (simp_all add: sendUpdate_def Let_def split: option.splits)

lemma sendUpdate_consecutive:
  "localSeqNum s \<le> localSeqNum (stateOf (sendUpdate E u s)) \<and>
   verifiedSeqNums (sentFrames (trace (stateOf (sendUpdate E u s)))) =
     verifiedSeqNums (sentFrames (trace s)) @ [localSeqNum s ..< localSeqNum (stateOf (sendUpdate E u s))]"
  by (simp add: sendUpdate_stamp)

lemma onDocUpdate_consecutive:
  "localSeqNum s \<le> localSeqNum (stateOf (onDocUpdate E u b s)) \<and>
   verifiedSeqNums (sentFrames (trace (stateOf (onDocUpdate E u b s)))) =
     verifiedSeqNums (sentFrames (trace s)) @ [localSeqNum s ..< localSeqNum (stateOf (onDocUpdate E u b s))]"
  using sendUpdate_consecutive [of s E u] by (simp add: onDocUpdate_def)

lemma syncNow_consecutive:
  "localSeqNum s \<le> localSeqNum (stateOf (syncNow E now s)) \<and>
   verifiedSeqNums (sentFrames (trace (stateOf (syncNow E now s)))) =
     verifiedSeqNums (sentFrames (trace s)) @ [localSeqNum s ..< localSeqNum (stateOf (syncNow E now s))]"
  using sendUpdate_consecutive [of s E "encodeStateAsUpdate E (doc s)"]
  by (auto simp: syncNow_def Let_def split: outcome.splits
        dest!: stateOf_ReturnedD stateOf_ThrewD)

lemma fireTimer_consecutive:
  "localSeqNum s \<le> localSeqNum (stateOf (fireTimer E now i s)) \<and>
   verifiedSeqNums (sentFrames (trace (stateOf (fireTimer E now i s)))) =
     verifiedSeqNums (sentFrames (trace s)) @ [localSeqNum s ..< localSeqNum (stateOf (fireTimer E now i s))]"
proof (cases "find (\<lambda>t. tid t = i) (timers s)")
  case None
  then show ?thesis by (simp add: fireTimer_def)
next
  case (Some t)
  show ?thesis
  proof (cases "kind t")
    case PeriodicResync
    with Some show ?thesis by (simp add: fireTimer_def)
  next
    case BackoffResync
    with Some show ?thesis by (simp add: fireTimer_def)
  next
    case BatchDebounce
    show ?thesis
    proof (cases "pendingUpdate s")
      case None
      with Some BatchDebounce show ?thesis by (simp add: fireTimer_def clearTimer_def Let_def)
    next
      case (Some u)
      have "pendingUpdate (clearTimer i s) = Some u"
        using Some by (simp add: clearTimer_def)
      then show ?thesis
        using sendUpdate_consecutive [of "clearTimer i s" E u] \<open>find (\<lambda>t. tid t = i) (timers s) = Some t\<close>
          BatchDebounce
        by (auto simp: fireTimer_def Let_def split: outcome.splits
              dest!: stateOf_ReturnedD stateOf_ThrewD)
    qed
  qed
qed

lemma step_consecutive:
  "localSeqNum s \<le> localSeqNum (stateOf (step E now x s)) \<and>
   verifiedSeqNums (sentFrames (trace (stateOf (step E now x s)))) =
     verifiedSeqNums (sentFrames (trace s)) @ [localSeqNum s ..< localSeqNum (stateOf (step E now x s))]"
proof (cases x)
  case OpSyncNow
  then show ?thesis using syncNow_consecutive [of s E now] by simp
next
  case (OpFireTimer i)
  then show ?thesis using fireTimer_consecutive [of s E now i] by simp
next
  case (OpLocalEdit u)
  then show ?thesis
    using onDocUpdate_consecutive [of "s\<lparr>doc := applyLocal E (doc s) u\<rparr>" E u False]
    by (simp add: Let_def)
qed (simp_all add: subscribe_def unsubscribe_def)

lemma run_consecutive:
  "localSeqNum s \<le> localSeqNum (run E ops s) \<and>
   verifiedSeqNums (sentFrames (trace (run E ops s))) =
     verifiedSeqNums (sentFrames (trace s)) @ [localSeqNum s ..< localSeqNum (run E ops s)]"
proof (induction ops arbitrary: s)
  case Nil
  show ?case by simp
next
  case (Cons a ops)
  obtain now x where a: "a = (now, x)" by (cases a)
  let ?s1 = "stateOf (step E now x s)"
  have 1: "localSeqNum s \<le> localSeqNum ?s1"
    "verifiedSeqNums (sentFrames (trace ?s1)) =
       verifiedSeqNums (sentFrames (trace s)) @ [localSeqNum s ..< localSeqNum ?s1]"
    using step_consecutive [of s E now x] by simp_all
  have 2: "localSeqNum ?s1 \<le> localSeqNum (run E ops ?s1)"
    "verifiedSeqNums (sentFrames (trace (run E ops ?s1))) =
       verifiedSeqNums (sentFrames (trace ?s1)) @ [localSeqNum ?s1 ..< localSeqNum (run E ops ?s1)]"
    using Cons.IH [of ?s1] by simp_all
  have "[localSeqNum s ..< localSeqNum ?s1] @ [localSeqNum ?s1 ..< localSeqNum (run E ops ?s1)] =
        [localSeqNum s ..< localSeqNum (run E ops ?s1)]"
    using 1(1) 2(1) by (metis le_Suc_ex upt_add_eq_append)
  then show ?case using 1 2 by (simp add: a)
qed

text \<open>
  Claim C10. A new provider starts with the counter at 0. In every state reachable
  from the constructor, the sequence numbers on the verified frames handed to the
  transport so far are exactly \<open>0, 1, ..., localSeqNum - 1\<close>, in this order. With
  verification enabled, \<open>_sendUpdate\<close> stamps the frame with the current counter and
  advances it by exactly one. \<open>disconnect()\<close>, \<open>destroy()\<close> and \<open>connect()\<close>, also a
  disconnect followed by a new connect, leave the counter as it is, and no run of
  operations ever lowers it.
\<close>

theorem C10_local_sequence_numbers:
  "localSeqNum (newProvider E d c thr opts) = 0 \<and>
   (s = run E ops (newProvider E d c thr opts) \<longrightarrow>
      verifiedSeqNums (sentFrames (trace s)) = [0 ..< localSeqNum s]) \<and>
   (verifyUpdates s \<longrightarrow>
      sentFrames (trace (stateOf (sendUpdate E u s))) =
        sentFrames (trace s) @
        [OutSyncVerified (localSeqNum s) (clientID E (doc s)) u (computeDocHash E (doc s))] \<and>
      localSeqNum (stateOf (sendUpdate E u s)) = localSeqNum s + 1) \<and>
   localSeqNum (disconnect E s) = localSeqNum s \<and>
   localSeqNum (destroy E s) = localSeqNum s \<and>
   localSeqNum (stateOf (connect E now cfg r s)) = localSeqNum s \<and>
   localSeqNum (run E [(t1, OpDisconnect), (t2, OpConnectBegin cfg), (t3, OpConnectSettled r)] s)
     = localSeqNum s \<and>
   (\<forall>ops'. localSeqNum s \<le> localSeqNum (run E ops' s))"
proof -
  have new: "localSeqNum (newProvider E d c thr opts) = 0"
    "trace (newProvider E d c thr opts) = []"
    by (simp_all add: newProvider_def)
  have inv: "verifiedSeqNums (sentFrames (trace s)) = [0 ..< localSeqNum s]"
    if "s = run E ops (newProvider E d c thr opts)"
    using run_consecutive [of "newProvider E d c thr opts" E ops] that new by simp
  have mono: "\<forall>ops'. localSeqNum s \<le> localSeqNum (run E ops' s)"
    using run_consecutive [of s E] by simp
  show ?thesis using new(1) inv mono by (simp add: sendUpdate_stamp)
qed

text \<open>
  Witness of C10: over the session the two local edits are stamped 0 and 1, across the
  disconnect and the second connect.
\<close>

theorem C10_local_sequence_numbers_witness:
  "verifiedSeqNums (sentFrames (trace (run demoEngine demoSession demoProvider))) = [0, 1] \<and>
   localSeqNum (run demoEngine demoSession demoProvider) = 2 \<and>
   sentFrames (trace (run demoEngine demoSession demoProvider)) =
     [OutSyncStep1 [1, 2, 3], OutAwareness [7],
      OutSyncVerified 0 7 [9] 31815, OutAwareness [7],
      OutSyncStep1 [1, 2, 3, 9], OutAwareness [7],
      OutSyncVerified 1 7 [10] 986275] \<and>
   verifyUpdates demoProvider \<and>
   localSeqNum (stateOf (sendUpdate demoEngine [9] demoProvider)) = 1"
proof -
  have count: "localSeqNum (run demoEngine demoSession demoProvider) = 2"
    and frames: "sentFrames (trace (run demoEngine demoSession demoProvider)) =
     [OutSyncStep1 [1, 2, 3], OutAwareness [7],
      OutSyncVerified 0 7 [9] 31815, OutAwareness [7],
      OutSyncStep1 [1, 2, 3, 9], OutAwareness [7],
      OutSyncVerified 1 7 [10] 986275]"
    and st: "verifyUpdates demoProvider" "localSeqNum demoProvider = 0"
    by (simp_all add: demoSession_def connectBegin_def connectSettled_def disconnect_def
          clearOwnTimers_def onDocUpdate_def eval_defs demo_defs)
  have upt: "[0 ..< 2] = [0, Suc 0]" by (simp add: upt_rec)
  show ?thesis
    using C10_local_sequence_numbers
            [where s = "run demoEngine demoSession demoProvider" and E = demoEngine
               and ops = demoSession and d = "(7, [1, 2, 3])" and c = True and thr = None
               and opts = demoOptions]
          C10_local_sequence_numbers [where s = demoProvider and E = demoEngine and u = "[9]"]
          count frames st upt
    by (simp add: demoProvider_def [symmetric])
qed

section \<open>C7: a transport that refuses to connect\<close>

text \<open>
  Claim C7. For every config and every provider that is not being destroyed (only then
  is the transport's \<open>connect\<close> called): if the transport's \<open>connect(config)\<close> rejects
  with \<open>err\<close>, the provider's \<open>connect()\<close> throws the same \<open>err\<close> to its caller and leaves
  the provider as it was but for the status, which is \<open>error\<close> carrying \<open>err\<close> (wrapped in
  an \<open>Error\<close> when it is not one), and for the trace: the status events and exactly one
  call of the transport's \<open>connect\<close>. So no timer is armed, no message handler is
  registered, nothing is sent and no second attempt is made. The same holds for the
  continuation alone, in whatever state the provider is when the promise is rejected.
\<close>

theorem C7_connect_rejected:
  "(\<not> destroying s \<longrightarrow>
      connect E now cfg (Rejected err) s =
        Threw err
          (s\<lparr>status := StatusError (asError err),
             trace := trace s @ [EmitStatus Connecting, TransportConnect cfg,
                                 EmitStatus (StatusError (asError err))]\<rparr>)) \<and>
   connectSettled E now (Rejected err) s =
     Threw err (s\<lparr>status := StatusError (asError err),
                  trace := trace s @ [EmitStatus (StatusError (asError err))]\<rparr>)"
  by (simp add: connect_def connectBegin_def connectSettled_def setStatus_def emit_def)

text \<open>
  Witness of C7: the new provider on a transport that rejects with a value that is not
  an \<open>Error\<close>.
\<close>

theorem C7_connect_rejected_witness:
  "\<not> destroying demoProvider \<and>
   connect demoEngine 1700000000000 ''room'' (Rejected (JsOther ''timeout'')) demoProvider =
     Threw (JsOther ''timeout'')
       (demoProvider\<lparr>status := StatusError (JsError ''timeout''),
          trace := [EmitStatus Connecting, TransportConnect ''room'',
                    EmitStatus (StatusError (JsError ''timeout''))]\<rparr>) \<and>
   timers (stateOf (connect demoEngine 1700000000000 ''room'' (Rejected (JsOther ''timeout''))
                      demoProvider)) = []"
proof -
  have st: "\<not> destroying demoProvider" "trace demoProvider = []" "timers demoProvider = []"
    by (simp_all add: demo_defs)
  show ?thesis
    using C7_connect_rejected [where s = demoProvider and E = demoEngine and now = 1700000000000
            and cfg = "''room''" and err = "JsOther ''timeout''"] st
    by simp
qed

section \<open>C5: timers after disconnect\<close>

text \<open>
  Claim C5 fails on the code. Before the frame arrives the provider holds its periodic
  resync interval; the mismatch schedules a backoff resync after 10 ms with
  \<open>setTimeout\<close>, whose handle is not kept. \<open>disconnect()\<close> clears the interval, and the
  backoff timeout is still pending when it returns (the same after \<open>destroy()\<close>). When
  it fires, its callback runs \<open>_sendSyncStep1\<close>, which records a request in the rate
  limiter's window; nothing is sent only because the transport is no longer connected.
\<close>

theorem C5_backoff_timer_outlives_disconnect:
  "timers demoConnected = [\<lparr>tid = 0, kind = PeriodicResync, delay = 5000\<rparr>] \<and>
   timers (handleIncomingMessage demoEngine 1700000000100 demoFrame demoConnected) =
     [\<lparr>tid = 0, kind = PeriodicResync, delay = 5000\<rparr>,
      \<lparr>tid = 1, kind = BackoffResync, delay = 10\<rparr>] \<and>
   timers demoDisconnected = [\<lparr>tid = 1, kind = BackoffResync, delay = 10\<rparr>] \<and>
   timers (destroy demoEngine
             (handleIncomingMessage demoEngine 1700000000100 demoFrame demoConnected)) =
     [\<lparr>tid = 1, kind = BackoffResync, delay = 10\<rparr>] \<and>
   syncRequestTimes demoDisconnected = [1700000000000] \<and>
   syncRequestTimes (stateOf (fireTimer demoEngine 1700000000110 1 demoDisconnected)) =
     [1700000000000, 1700000000110] \<and>
   timers (stateOf (fireTimer demoEngine 1700000000110 1 demoDisconnected)) = []"
  by (simp add: demoDisconnected_def demoConnected_def demoFrame_def connectBegin_def
        connectSettled_def disconnect_def destroy_def clearOwnTimers_def fireTimer_def
        eval_defs demo_defs)

section \<open>C8: pub/sub delivery\<close>

lemma invocations_simps [simp]:
  "invocations [] = []"
  "invocations (xs @ ys) = invocations xs @ invocations ys"
  "invocations (Invoked j cb m t # xs) = Invoked j cb m t # invocations xs"
  "invocations (TransportSend f # xs) = invocations xs"
  "invocations (Warn w # xs) = invocations xs"
  "invocations (LogError l # xs) = invocations xs"
  "invocations (EmitStatus st # xs) = invocations xs"
  "invocations (EmitSynced b # xs) = invocations xs"
  "invocations (TransportConnect cfg # xs) = invocations xs"
  "invocations (TransportOnMessage # xs) = invocations xs"
  "invocations (TransportUnsubscribe # xs) = invocations xs"
  "invocations (TransportDisconnect # xs) = invocations xs"
  by (simp_all add: invocations_def)

lemma invocationsOf_simps [simp]:
  "invocationsOf i [] = []"
  "invocationsOf i (xs @ ys) = invocationsOf i xs @ invocationsOf i ys"
  "invocationsOf i (Invoked j cb m t # xs) = (if j = i then Invoked j cb m t # invocationsOf i xs else invocationsOf i xs)"
  "invocationsOf i (TransportSend f # xs) = invocationsOf i xs"
  "invocationsOf i (Warn w # xs) = invocationsOf i xs"
  "invocationsOf i (LogError l # xs) = invocationsOf i xs"
  "invocationsOf i (EmitStatus st # xs) = invocationsOf i xs"
  "invocationsOf i (EmitSynced b # xs) = invocationsOf i xs"
  "invocationsOf i (TransportConnect cfg # xs) = invocationsOf i xs"
  "invocationsOf i (TransportOnMessage # xs) = invocationsOf i xs"
  "invocationsOf i (TransportUnsubscribe # xs) = invocationsOf i xs"
  "invocationsOf i (TransportDisconnect # xs) = invocationsOf i xs"
  by (simp_all add: invocationsOf_def)

lemma emit_subs [simp]:
  "handlers (emit e s) = handlers s" "nextSubId (emit e s) = nextSubId s"
  by (simp_all add: emit_def)

lemma send_subs [simp]:
  "handlers (send f s) = handlers s" "nextSubId (send f s) = nextSubId s"
  "invocationsOf i (trace (send f s)) = invocationsOf i (trace s)"
  by (simp_all add: send_def split: option.splits)

lemma setStatus_subs [simp]:
  "handlers (setStatus st s) = handlers s" "nextSubId (setStatus st s) = nextSubId s"
  by (simp_all add: setStatus_def)

lemma setTimer_subs [simp]:
  "handlers (setTimer k d s) = handlers s" "nextSubId (setTimer k d s) = nextSubId s"
  by (simp_all add: setTimer_def)

lemma clearTimer_subs [simp]:
  "handlers (clearTimer j s) = handlers s" "nextSubId (clearTimer j s) = nextSubId s"
  by (simp_all add: clearTimer_def)

lemma sendSyncStep1_subs [simp]:
  "handlers (sendSyncStep1 E now s) = handlers s" "nextSubId (sendSyncStep1 E now s) = nextSubId s"
  "invocationsOf i (trace (sendSyncStep1 E now s)) = invocationsOf i (trace s)"
  by (simp_all add: sendSyncStep1_def Let_def)

lemma broadcastAwareness_subs [simp]:
  "handlers (broadcastAwareness E cs s) = handlers s"
  "nextSubId (broadcastAwareness E cs s) = nextSubId s"
  "invocationsOf i (trace (broadcastAwareness E cs s)) = invocationsOf i (trace s)"
  by (simp_all add: broadcastAwareness_def)

lemma awarenessChanged_subs [simp]:
  "handlers (awarenessChanged E cs s) = handlers s"
  "nextSubId (awarenessChanged E cs s) = nextSubId s"
  "invocationsOf i (trace (awarenessChanged E cs s)) = invocationsOf i (trace s)"
  by (simp_all add: awarenessChanged_def)

lemma sendPubSub_subs [simp]:
  "handlers (sendPubSub t m s) = handlers s" "nextSubId (sendPubSub t m s) = nextSubId s"
  "invocationsOf i (trace (sendPubSub t m s)) = invocationsOf i (trace s)"
  by (simp_all add: sendPubSub_def)

lemma sendUpdate_subs [simp]:
  "handlers (stateOf (sendUpdate E u s)) = handlers s"
  "nextSubId (stateOf (sendUpdate E u s)) = nextSubId s"
  "invocationsOf i (trace (stateOf (sendUpdate E u s))) = invocationsOf i (trace s)"
  by (simp_all add: sendUpdate_def Let_def split: option.splits)

lemma verifyHash_subs [simp]:
  "handlers (verifyHash E now l e s) = handlers s" "nextSubId (verifyHash E now l e s) = nextSubId s"
  "invocationsOf i (trace (verifyHash E now l e s)) = invocationsOf i (trace s)"
  by (simp_all add: verifyHash_def Let_def)

lemma handleVerified_subs [simp]:
  "handlers (handleVerified E now n c p hf s) = handlers s"
  "nextSubId (handleVerified E now n c p hf s) = nextSubId s"
  "invocationsOf i (trace (handleVerified E now n c p hf s)) = invocationsOf i (trace s)"
  by (simp_all add: handleVerified_def Let_def split: option.splits prod.splits)

lemma handlePlainSync_subs [simp]:
  "handlers (handlePlainSync E p s) = handlers s"
  "nextSubId (handlePlainSync E p s) = nextSubId s"
  "invocationsOf i (trace (handlePlainSync E p s)) = invocationsOf i (trace s)"
  by (simp_all add: handlePlainSync_def Let_def split: option.splits prod.splits)

lemma send_invocations [simp]:
  "invocations (trace (send f s)) = invocations (trace s)"
  by (simp add: send_def split: option.splits)

lemma runCall_invocations [simp]:
  "invocations (trace (runCall c s)) = invocations (trace s)"
  "invocationsOf i (trace (runCall c s)) = invocationsOf i (trace s)"
  by (cases c; simp add: subscribe_def unsubscribe_def sendPubSub_def)+

lemma runCalls_invocations [simp]:
  "invocations (trace (runCalls cs s)) = invocations (trace s)"
  "invocationsOf i (trace (runCalls cs s)) = invocationsOf i (trace s)"
  by (induction cs arbitrary: s; simp)+

text \<open>
  The subscriptions a delivery reaches: of the copy, those that match, up to and
  including the first whose callback throws.
\<close>

lemma invokeAll_invocations:
  "invocations (trace (stateOf (invokeAll E hs m t s))) =
     invocations (trace s) @
     map (\<lambda>h. Invoked (subId h) (subCallback h) m t)
       (takeWhile (\<lambda>h. snd (callbackBehaviour E (subCallback h) m t) = None)
          (filter (\<lambda>h. subTopic h = ''*'' \<or> subTopic h = t) hs) @
        take 1 (dropWhile (\<lambda>h. snd (callbackBehaviour E (subCallback h) m t) = None)
                  (filter (\<lambda>h. subTopic h = ''*'' \<or> subTopic h = t) hs)))"
proof (induction hs arbitrary: s)
  case Nil
  show ?case by simp
next
  case (Cons h hs)
  obtain calls thrown where b: "callbackBehaviour E (subCallback h) m t = (calls, thrown)"
    by (cases "callbackBehaviour E (subCallback h) m t")
  show ?case
  proof (cases "subTopic h = ''*'' \<or> subTopic h = t")
    case False
    then show ?thesis using Cons.IH [of s] by simp
  next
    case True
    show ?thesis
    proof (cases thrown)
      case None
      then show ?thesis
        using True b
          Cons.IH [of "runCalls calls (emit (Invoked (subId h) (subCallback h) m t) s)"]
        by (simp add: Let_def)
    next
      case (Some e)
      then show ?thesis using True b by (simp add: Let_def)
    qed
  qed
qed

lemma handlePubSub_invocations:
  "invocations (trace (handlePubSub E t (Some m) s)) =
     invocations (trace (stateOf (invokeAll E (handlers s) m t s)))"
  by (cases "invokeAll E (handlers s) m t s")
     (simp_all add: handlePubSub_def pubsubHandleMessage_def)

text \<open>A delivery ends in the \<open>catch\<close> exactly when a matching callback throws.\<close>

lemma invokeAll_Returned:
  "(\<exists>s'. invokeAll E hs m t s = Returned s') =
     (\<forall>h \<in> set hs. subTopic h = ''*'' \<or> subTopic h = t \<longrightarrow>
         snd (callbackBehaviour E (subCallback h) m t) = None)"
proof (induction hs arbitrary: s)
  case Nil
  show ?case by simp
next
  case (Cons h hs)
  obtain calls thrown where b: "callbackBehaviour E (subCallback h) m t = (calls, thrown)"
    by (cases "callbackBehaviour E (subCallback h) m t")
  show ?case
    using b Cons.IH by (cases thrown) (simp_all add: Let_def)
qed

text \<open>
  Subscription ids are issued in increasing order; a subscription that was issued and
  is no longer registered stays so, whatever callbacks do to the channel.
\<close>

lemma runCall_fresh:
  "\<forall>h \<in> set (handlers s). subId h < nextSubId s \<Longrightarrow>
   nextSubId s \<le> nextSubId (runCall c s) \<and>
   (\<forall>h \<in> set (handlers (runCall c s)). subId h < nextSubId (runCall c s))"
  by (cases c) (auto simp: subscribe_def unsubscribe_def)

lemma runCall_gone:
  "i < nextSubId s \<Longrightarrow> \<forall>h \<in> set (handlers s). subId h \<noteq> i \<Longrightarrow>
   \<forall>h \<in> set (handlers (runCall c s)). subId h \<noteq> i"
  by (cases c) (auto simp: subscribe_def unsubscribe_def)

lemma runCalls_fresh:
  "\<forall>h \<in> set (handlers s). subId h < nextSubId s \<Longrightarrow>
   nextSubId s \<le> nextSubId (runCalls cs s) \<and>
   (\<forall>h \<in> set (handlers (runCalls cs s)). subId h < nextSubId (runCalls cs s))"
proof (induction cs arbitrary: s)
  case Nil
  then show ?case by simp
next
  case (Cons c cs)
  from runCall_fresh [OF Cons.prems, of c]
  have 1: "nextSubId s \<le> nextSubId (runCall c s)"
    and 2: "\<forall>h \<in> set (handlers (runCall c s)). subId h < nextSubId (runCall c s)"
    by simp_all
  from Cons.IH [OF 2] 1 show ?case by simp
qed

lemma runCalls_gone:
  "i < nextSubId s \<Longrightarrow> \<forall>h \<in> set (handlers s). subId h < nextSubId s \<Longrightarrow>
   \<forall>h \<in> set (handlers s). subId h \<noteq> i \<Longrightarrow>
   \<forall>h \<in> set (handlers (runCalls cs s)). subId h \<noteq> i"
proof (induction cs arbitrary: s)
  case Nil
  then show ?case by simp
next
  case (Cons c cs)
  from runCall_fresh [OF Cons.prems(2), of c]
  have 1: "nextSubId s \<le> nextSubId (runCall c s)"
    and 2: "\<forall>h \<in> set (handlers (runCall c s)). subId h < nextSubId (runCall c s)"
    by simp_all
  have 3: "\<forall>h \<in> set (handlers (runCall c s)). subId h \<noteq> i"
    using Cons.prems(1,3) by (rule runCall_gone)
  have 4: "i < nextSubId (runCall c s)" using Cons.prems(1) 1 by simp
  from Cons.IH [OF 4 2 3] show ?case by simp
qed

lemma invokeAll_fresh:
  "\<forall>h \<in> set (handlers s). subId h < nextSubId s \<Longrightarrow>
   nextSubId s \<le> nextSubId (stateOf (invokeAll E hs m t s)) \<and>
   (\<forall>h \<in> set (handlers (stateOf (invokeAll E hs m t s))).
       subId h < nextSubId (stateOf (invokeAll E hs m t s)))"
proof (induction hs arbitrary: s)
  case Nil
  then show ?case by simp
next
  case (Cons h hs)
  obtain calls thrown where b: "callbackBehaviour E (subCallback h) m t = (calls, thrown)"
    by (cases "callbackBehaviour E (subCallback h) m t")
  let ?s1 = "runCalls calls (emit (Invoked (subId h) (subCallback h) m t) s)"
  have e: "\<forall>k \<in> set (handlers (emit (Invoked (subId h) (subCallback h) m t) s)).
             subId k < nextSubId (emit (Invoked (subId h) (subCallback h) m t) s)"
    using Cons.prems by simp
  from runCalls_fresh [OF e, of calls]
  have 1: "nextSubId s \<le> nextSubId ?s1"
    and 2: "\<forall>k \<in> set (handlers ?s1). subId k < nextSubId ?s1"
    by simp_all
  show ?case
  proof (cases "subTopic h = ''*'' \<or> subTopic h = t")
    case False
    then show ?thesis using Cons.IH [OF Cons.prems] by simp
  next
    case True
    show ?thesis
    proof (cases thrown)
      case None
      then show ?thesis using True b Cons.IH [OF 2] 1 by (simp add: Let_def)
    next
      case (Some e)
      then show ?thesis using True b 1 2 by (simp add: Let_def)
    qed
  qed
qed

lemma invokeAll_gone:
  assumes "i < nextSubId s" "\<forall>h \<in> set (handlers s). subId h < nextSubId s"
    and "\<forall>h \<in> set (handlers s). subId h \<noteq> i" "\<forall>h \<in> set hs. subId h \<noteq> i"
  shows "(\<forall>h \<in> set (handlers (stateOf (invokeAll E hs m t s))). subId h \<noteq> i) \<and>
         invocationsOf i (trace (stateOf (invokeAll E hs m t s))) = invocationsOf i (trace s)"
  using assms
proof (induction hs arbitrary: s)
  case Nil
  then show ?case by simp
next
  case (Cons h hs)
  obtain calls thrown where b: "callbackBehaviour E (subCallback h) m t = (calls, thrown)"
    by (cases "callbackBehaviour E (subCallback h) m t")
  let ?s0 = "emit (Invoked (subId h) (subCallback h) m t) s"
  let ?s1 = "runCalls calls ?s0"
  have hi: "subId h \<noteq> i" and rest: "\<forall>k \<in> set hs. subId k \<noteq> i"
    using Cons.prems(4) by simp_all
  have e: "i < nextSubId ?s0" "\<forall>k \<in> set (handlers ?s0). subId k < nextSubId ?s0"
    "\<forall>k \<in> set (handlers ?s0). subId k \<noteq> i"
    using Cons.prems(1-3) by simp_all
  from runCalls_fresh [OF e(2), of calls]
  have 1: "nextSubId ?s0 \<le> nextSubId ?s1"
    and 2: "\<forall>k \<in> set (handlers ?s1). subId k < nextSubId ?s1"
    by simp_all
  have 3: "\<forall>k \<in> set (handlers ?s1). subId k \<noteq> i"
    using e by (rule runCalls_gone)
  have 4: "i < nextSubId ?s1" using e(1) 1 by simp
  have 5: "invocationsOf i (trace ?s1) = invocationsOf i (trace s)"
    using hi by simp
  show ?case
  proof (cases "subTopic h = ''*'' \<or> subTopic h = t")
    case False
    then show ?thesis using Cons.IH [OF Cons.prems(1-3) rest] by simp
  next
    case True
    show ?thesis
    proof (cases thrown)
      case None
      then show ?thesis using True b Cons.IH [OF 4 2 3 rest] 5 by (simp add: Let_def)
    next
      case (Some e)
      then show ?thesis using True b 3 5 by (simp add: Let_def)
    qed
  qed
qed

lemma handlePubSub_fresh:
  assumes "\<forall>h \<in> set (handlers s). subId h < nextSubId s"
  shows "nextSubId s \<le> nextSubId (handlePubSub E t payload s) \<and>
   (\<forall>h \<in> set (handlers (handlePubSub E t payload s)).
       subId h < nextSubId (handlePubSub E t payload s))"
proof (cases payload)
  case None
  then show ?thesis using assms by (simp add: handlePubSub_def)
next
  case (Some m)
  note inv = invokeAll_fresh [OF assms, of E "handlers s" m t]
  show ?thesis
  proof (cases "invokeAll E (handlers s) m t s")
    case (Returned s')
    then show ?thesis using inv Some by (simp add: handlePubSub_def pubsubHandleMessage_def)
  next
    case (Threw e s')
    then show ?thesis using inv Some by (simp add: handlePubSub_def pubsubHandleMessage_def)
  qed
qed

lemma handlePubSub_gone:
  assumes "i < nextSubId s" "\<forall>h \<in> set (handlers s). subId h < nextSubId s"
    and "\<forall>h \<in> set (handlers s). subId h \<noteq> i"
  shows "(\<forall>h \<in> set (handlers (handlePubSub E t payload s)). subId h \<noteq> i) \<and>
         invocationsOf i (trace (handlePubSub E t payload s)) = invocationsOf i (trace s)"
proof (cases payload)
  case None
  then show ?thesis using assms by (simp add: handlePubSub_def)
next
  case (Some m)
  note inv = invokeAll_gone [OF assms assms(3), of E m t]
  show ?thesis
  proof (cases "invokeAll E (handlers s) m t s")
    case (Returned s')
    then show ?thesis using inv Some by (simp add: handlePubSub_def pubsubHandleMessage_def)
  next
    case (Threw e s')
    then show ?thesis using inv Some by (simp add: handlePubSub_def pubsubHandleMessage_def)
  qed
qed

lemma handleIncoming_other_subs:
  "\<forall>t payload. f \<noteq> InPubSub t payload \<Longrightarrow>
   handlers (handleIncomingMessage E now f s) = handlers s \<and>
   nextSubId (handleIncomingMessage E now f s) = nextSubId s \<and>
   invocationsOf i (trace (handleIncomingMessage E now f s)) = invocationsOf i (trace s)"
  by (cases f) (simp_all split: option.splits prod.splits)

lemma handleIncoming_fresh:
  assumes "\<forall>h \<in> set (handlers s). subId h < nextSubId s"
  shows "nextSubId s \<le> nextSubId (handleIncomingMessage E now f s) \<and>
   (\<forall>h \<in> set (handlers (handleIncomingMessage E now f s)).
       subId h < nextSubId (handleIncomingMessage E now f s))"
proof (cases "\<exists>t payload. f = InPubSub t payload")
  case True
  then obtain t payload where "f = InPubSub t payload" by blast
  then show ?thesis using handlePubSub_fresh [OF assms, of E t payload] by simp
next
  case False
  then show ?thesis using handleIncoming_other_subs [of f E now s] assms by simp
qed

lemma handleIncoming_gone:
  assumes "i < nextSubId s" "\<forall>h \<in> set (handlers s). subId h < nextSubId s"
    and "\<forall>h \<in> set (handlers s). subId h \<noteq> i"
  shows "(\<forall>h \<in> set (handlers (handleIncomingMessage E now f s)). subId h \<noteq> i) \<and>
         invocationsOf i (trace (handleIncomingMessage E now f s)) = invocationsOf i (trace s)"
proof (cases "\<exists>t payload. f = InPubSub t payload")
  case True
  then obtain t payload where "f = InPubSub t payload" by blast
  then show ?thesis using handlePubSub_gone [OF assms, of E t payload] by simp
next
  case False
  then show ?thesis using handleIncoming_other_subs [of f E now s i] assms(3) by simp
qed

lemma clearOwnTimers_subs [simp]:
  "handlers (clearOwnTimers s) = handlers s" "nextSubId (clearOwnTimers s) = nextSubId s"
  by (simp_all add: clearOwnTimers_def Let_def split: option.splits)

lemma disconnect_subs [simp]:
  "handlers (disconnect E s) = handlers s" "nextSubId (disconnect E s) = nextSubId s"
  "invocationsOf i (trace (disconnect E s)) = invocationsOf i (trace s)"
  by (simp_all add: disconnect_def Let_def split: prod.splits)

lemma destroy_subs [simp]:
  "handlers (destroy E s) = handlers s" "nextSubId (destroy E s) = nextSubId s"
  "invocationsOf i (trace (destroy E s)) = invocationsOf i (trace s)"
  by (simp_all add: destroy_def Let_def)

lemma batchUpdate_subs [simp]:
  "handlers (batchUpdate E u s) = handlers s" "nextSubId (batchUpdate E u s) = nextSubId s"
  by (simp_all add: batchUpdate_def Let_def split: option.splits)

lemma onDocUpdate_subs [simp]:
  "handlers (stateOf (onDocUpdate E u b s)) = handlers s"
  "nextSubId (stateOf (onDocUpdate E u b s)) = nextSubId s"
  "invocationsOf i (trace (stateOf (onDocUpdate E u b s))) = invocationsOf i (trace s)"
  by (simp_all add: onDocUpdate_def)

lemma fireTimer_subs [simp]:
  "handlers (stateOf (fireTimer E now j s)) = handlers s"
  "nextSubId (stateOf (fireTimer E now j s)) = nextSubId s"
  "invocationsOf i (trace (stateOf (fireTimer E now j s))) = invocationsOf i (trace s)"
  by (auto simp: fireTimer_def Let_def split: option.splits timer_kind.splits outcome.splits
        dest!: stateOf_ReturnedD stateOf_ThrewD)

lemma connect_subs [simp]:
  "handlers (stateOf (connectBegin cfg s)) = handlers s"
  "nextSubId (stateOf (connectBegin cfg s)) = nextSubId s"
  "invocationsOf i (trace (stateOf (connectBegin cfg s))) = invocationsOf i (trace s)"
  "handlers (stateOf (connectSettled E now r s)) = handlers s"
  "nextSubId (stateOf (connectSettled E now r s)) = nextSubId s"
  "invocationsOf i (trace (stateOf (connectSettled E now r s))) = invocationsOf i (trace s)"
  by (simp_all add: connectBegin_def connectSettled_def Let_def split: settled.splits)

lemma syncNow_subs [simp]:
  "handlers (stateOf (syncNow E now s)) = handlers s"
  "nextSubId (stateOf (syncNow E now s)) = nextSubId s"
  "invocationsOf i (trace (stateOf (syncNow E now s))) = invocationsOf i (trace s)"
  by (auto simp: syncNow_def Let_def split: outcome.splits if_splits
        dest!: stateOf_ReturnedD stateOf_ThrewD)

lemma step_unsubscribed:
  assumes "i < nextSubId s" "\<forall>h \<in> set (handlers s). subId h < nextSubId s"
    and "\<forall>h \<in> set (handlers s). subId h \<noteq> i"
  shows "i < nextSubId (stateOf (step E now x s)) \<and>
         (\<forall>h \<in> set (handlers (stateOf (step E now x s))).
             subId h < nextSubId (stateOf (step E now x s))) \<and>
         (\<forall>h \<in> set (handlers (stateOf (step E now x s))). subId h \<noteq> i) \<and>
         invocationsOf i (trace (stateOf (step E now x s))) = invocationsOf i (trace s)"
proof (cases x)
  case (OpIncoming f)
  then show ?thesis
    using assms handleIncoming_fresh [OF assms(2), of E now f] handleIncoming_gone [OF assms, of E now f]
    by simp
next
  case (OpSubscribe t cb)
  then show ?thesis using assms by (auto simp: subscribe_def)
next
  case (OpUnsubscribe j)
  then show ?thesis using assms by (auto simp: unsubscribe_def)
next
  case (OpLocalEdit u)
  then show ?thesis using assms by (simp add: Let_def)
qed (use assms in simp_all)

lemma run_unsubscribed:
  assumes "i < nextSubId s" "\<forall>h \<in> set (handlers s). subId h < nextSubId s"
    and "\<forall>h \<in> set (handlers s). subId h \<noteq> i"
  shows "invocationsOf i (trace (run E ops s)) = invocationsOf i (trace s)"
  using assms
proof (induction ops arbitrary: s)
  case Nil
  show ?case by simp
next
  case (Cons a ops)
  obtain now x where a: "a = (now, x)" by (cases a)
  note st = step_unsubscribed [OF Cons.prems, of E now x]
  have "invocationsOf i (trace (run E ops (stateOf (step E now x s)))) =
        invocationsOf i (trace (stateOf (step E now x s)))"
    using st by (intro Cons.IH) simp_all
  then show ?case using st by (simp add: a)
qed

lemma step_fresh:
  assumes "\<forall>h \<in> set (handlers s). subId h < nextSubId s"
  shows "nextSubId s \<le> nextSubId (stateOf (step E now x s)) \<and>
         (\<forall>h \<in> set (handlers (stateOf (step E now x s))).
             subId h < nextSubId (stateOf (step E now x s)))"
proof (cases x)
  case (OpIncoming f)
  then show ?thesis using assms handleIncoming_fresh [OF assms, of E now f] by simp
next
  case (OpSubscribe t cb)
  then show ?thesis using assms by (auto simp: subscribe_def)
next
  case (OpUnsubscribe j)
  then show ?thesis using assms by (auto simp: unsubscribe_def)
next
  case (OpLocalEdit u)
  then show ?thesis using assms by (simp add: Let_def)
qed (use assms in simp_all)

lemma run_fresh:
  "\<forall>h \<in> set (handlers s). subId h < nextSubId s \<Longrightarrow>
   nextSubId s \<le> nextSubId (run E ops s) \<and>
   (\<forall>h \<in> set (handlers (run E ops s)). subId h < nextSubId (run E ops s))"
proof (induction ops arbitrary: s)
  case Nil
  then show ?case by simp
next
  case (Cons a ops)
  obtain now x where a: "a = (now, x)" by (cases a)
  from step_fresh [OF Cons.prems, of E now x]
  have 1: "nextSubId s \<le> nextSubId (stateOf (step E now x s))"
    and 2: "\<forall>h \<in> set (handlers (stateOf (step E now x s))).
              subId h < nextSubId (stateOf (step E now x s))"
    by simp_all
  from Cons.IH [OF 2] 1 show ?case by (simp add: a)
qed

text \<open>Only the channel's own calls change the registered subscriptions.\<close>

lemma step_handlers:
  assumes "\<forall>topic cb. x \<noteq> OpSubscribe topic cb" "\<forall>j. x \<noteq> OpUnsubscribe j"
    and "\<forall>t payload. x \<noteq> OpIncoming (InPubSub t payload)"
  shows "handlers (stateOf (step E now x s)) = handlers s"
proof (cases x)
  case (OpIncoming f)
  with assms(3) have "\<forall>t payload. f \<noteq> InPubSub t payload" by simp
  then show ?thesis using OpIncoming handleIncoming_other_subs [of f E now s] by simp
next
  case (OpLocalEdit u)
  then show ?thesis by (simp add: Let_def)
qed (use assms in simp_all)

text \<open>
  Claim C8, as amended. When an inbound pub/sub frame with topic \<open>t\<close> and a JSON payload
  is handled, callbacks are invoked for the subscriptions registered when the delivery
  starts whose topic is \<open>"*"\<close> or \<open>t\<close>, each with the message and \<open>t\<close>, in the order of the
  subscriptions, up to and including the first whose callback throws: a throw ends the
  delivery of that frame. So when no matching callback throws, exactly the matching
  subscriptions are invoked, in order. A frame whose payload is not JSON is logged and
  invokes nobody. \<open>subscribe\<close> puts a new subscription after the registered ones,
  an unsubscribe function removes its own subscription and leaves the others registered
  in their order, and no operation of the provider other than these two and a delivery
  (whose callbacks may call them) changes the registered subscriptions. And for a
  provider reachable from its constructor, once the unsubscribe function that a
  \<open>subscribe\<close> returned has been called as an operation of its own, no run of operations
  invokes the callback of that subscription again.
\<close>

theorem C8_pubsub_delivery:
  "invocations (trace (handleIncomingMessage E now (InPubSub t (Some m)) s)) =
     invocations (trace s) @
     map (\<lambda>h. Invoked (subId h) (subCallback h) m t)
       (takeWhile (\<lambda>h. snd (callbackBehaviour E (subCallback h) m t) = None)
          (filter (\<lambda>h. subTopic h = ''*'' \<or> subTopic h = t) (handlers s)) @
        take 1 (dropWhile (\<lambda>h. snd (callbackBehaviour E (subCallback h) m t) = None)
                  (filter (\<lambda>h. subTopic h = ''*'' \<or> subTopic h = t) (handlers s)))) \<and>
   ((\<forall>h \<in> set (handlers s). subTopic h = ''*'' \<or> subTopic h = t \<longrightarrow>
        snd (callbackBehaviour E (subCallback h) m t) = None) \<longrightarrow>
      invocations (trace (handleIncomingMessage E now (InPubSub t (Some m)) s)) =
        invocations (trace s) @
        map (\<lambda>h. Invoked (subId h) (subCallback h) m t)
          (filter (\<lambda>h. subTopic h = ''*'' \<or> subTopic h = t) (handlers s))) \<and>
   handleIncomingMessage E now (InPubSub t None) s =
     s\<lparr>trace := trace s @ [LogError ErrPubSubDecode]\<rparr> \<and>
   handlers (snd (subscribe topic cb s)) =
     handlers s @ [\<lparr>subId = fst (subscribe topic cb s), subTopic = topic, subCallback = cb\<rparr>] \<and>
   handlers (unsubscribe i s) = filter (\<lambda>h. subId h \<noteq> i) (handlers s) \<and>
   ((\<forall>topic' cb'. x \<noteq> OpSubscribe topic' cb') \<and> (\<forall>j. x \<noteq> OpUnsubscribe j) \<and>
    (\<forall>t' payload. x \<noteq> OpIncoming (InPubSub t' payload)) \<longrightarrow>
      handlers (stateOf (step E now x s)) = handlers s) \<and>
   (s = run E opsA (newProvider E d c thr opts) \<longrightarrow>
      invocationsOf (fst (subscribe topic cb s))
        (trace (run E opsC (unsubscribe (fst (subscribe topic cb s))
                              (run E opsB (snd (subscribe topic cb s)))))) =
      invocationsOf (fst (subscribe topic cb s)) (trace (run E opsB (snd (subscribe topic cb s)))))"
proof -
  let ?ok = "\<lambda>h. snd (callbackBehaviour E (subCallback h) m t) = None"
  let ?ms = "filter (\<lambda>h. subTopic h = ''*'' \<or> subTopic h = t) (handlers s)"
  have deliver: "invocations (trace (handleIncomingMessage E now (InPubSub t (Some m)) s)) =
     invocations (trace s) @
     map (\<lambda>h. Invoked (subId h) (subCallback h) m t) (takeWhile ?ok ?ms @ take 1 (dropWhile ?ok ?ms))"
    by (simp add: handlePubSub_invocations invokeAll_invocations)
  have calm: "invocations (trace (handleIncomingMessage E now (InPubSub t (Some m)) s)) =
        invocations (trace s) @ map (\<lambda>h. Invoked (subId h) (subCallback h) m t) ?ms"
    if "\<forall>h \<in> set (handlers s). subTopic h = ''*'' \<or> subTopic h = t \<longrightarrow> ?ok h"
  proof -
    from that have "\<forall>h \<in> set ?ms. ?ok h" by auto
    then have "takeWhile ?ok ?ms = ?ms" "dropWhile ?ok ?ms = []"
      by (simp_all add: takeWhile_eq_all_conv dropWhile_eq_Nil_conv)
    with deliver show ?thesis by simp
  qed
  have bad: "handleIncomingMessage E now (InPubSub t None) s =
     s\<lparr>trace := trace s @ [LogError ErrPubSubDecode]\<rparr>"
    by (simp add: handlePubSub_def emit_def)
  have order: "handlers (snd (subscribe topic cb s)) =
     handlers s @ [\<lparr>subId = fst (subscribe topic cb s), subTopic = topic, subCallback = cb\<rparr>]"
    by (simp add: subscribe_def)
  have others: "handlers (unsubscribe i s) = filter (\<lambda>h. subId h \<noteq> i) (handlers s)"
    by (simp add: unsubscribe_def)
  have kept: "handlers (stateOf (step E now x s)) = handlers s"
    if "\<forall>topic' cb'. x \<noteq> OpSubscribe topic' cb'" "\<forall>j. x \<noteq> OpUnsubscribe j"
      "\<forall>t' payload. x \<noteq> OpIncoming (InPubSub t' payload)"
    using that by (rule step_handlers)
  have never: "invocationsOf (fst (subscribe topic cb s))
        (trace (run E opsC (unsubscribe (fst (subscribe topic cb s))
                              (run E opsB (snd (subscribe topic cb s)))))) =
      invocationsOf (fst (subscribe topic cb s)) (trace (run E opsB (snd (subscribe topic cb s))))"
    if reach: "s = run E opsA (newProvider E d c thr opts)"
  proof -
    let ?i = "fst (subscribe topic cb s)"
    let ?s1 = "run E opsB (snd (subscribe topic cb s))"
    have "\<forall>h \<in> set (handlers (newProvider E d c thr opts)).
            subId h < nextSubId (newProvider E d c thr opts)"
      by (simp add: newProvider_def)
    from run_fresh [OF this, of E opsA]
    have fresh0: "\<forall>h \<in> set (handlers s). subId h < nextSubId s"
      unfolding reach by simp
    then have "\<forall>h \<in> set (handlers (snd (subscribe topic cb s))).
            subId h < nextSubId (snd (subscribe topic cb s))"
      by (auto simp: subscribe_def)
    from run_fresh [OF this, of E opsB]
    have fresh1: "\<forall>h \<in> set (handlers ?s1). subId h < nextSubId ?s1"
      and mono: "nextSubId (snd (subscribe topic cb s)) \<le> nextSubId ?s1"
      by simp_all
    have "?i < nextSubId (snd (subscribe topic cb s))" by (simp add: subscribe_def)
    with mono have issued: "?i < nextSubId (unsubscribe ?i ?s1)" by (simp add: unsubscribe_def)
    have fresh2: "\<forall>h \<in> set (handlers (unsubscribe ?i ?s1)). subId h < nextSubId (unsubscribe ?i ?s1)"
      using fresh1 by (auto simp: unsubscribe_def)
    have gone: "\<forall>h \<in> set (handlers (unsubscribe ?i ?s1)). subId h \<noteq> ?i"
      by (auto simp: unsubscribe_def)
    have "invocationsOf ?i (trace (run E opsC (unsubscribe ?i ?s1))) =
          invocationsOf ?i (trace (unsubscribe ?i ?s1))"
      using issued fresh2 gone by (rule run_unsubscribed)
    then show ?thesis by (simp add: unsubscribe_def)
  qed
  show ?thesis
    using deliver calm bad order others kept never
    by (intro conjI impI; (elim conjE)?) simp_all
qed

lemma demoConnected_reachable:
  "demoConnected =
     run demoEngine
       [(1700000000000, OpConnectBegin ''room''), (1700000000000, OpConnectSettled Resolved)]
       (newProvider demoEngine (7, [1, 2, 3]) True None demoOptions)"
  by (simp only: demoConnected_def demoProvider_def)

lemmas pubsub_defs =
  subscribe_def unsubscribe_def handlePubSub_def pubsubHandleMessage_def connectBegin_def
  connectSettled_def disconnect_def clearOwnTimers_def

text \<open>
  Witness of C8: a message on \<open>chat\<close> reaches the subscriptions to \<open>chat\<close> and to \<open>*\<close>,
  in this order, and not the one to \<open>news\<close>; removing the first subscription leaves the
  other two, \<open>disconnect()\<close> leaves all three; and after the first subscription is
  removed, a second message on \<open>chat\<close> does not reach it.
\<close>

theorem C8_pubsub_delivery_witness:
  "invocations (trace (handleIncomingMessage demoEngine 1700000000200
                         (InPubSub ''chat'' (Some ''hi'')) demoSubscribed)) =
     [Invoked 0 100 ''hi'' ''chat'', Invoked 1 200 ''hi'' ''chat''] \<and>
   handlers (unsubscribe 0 demoSubscribed) =
     [\<lparr>subId = 1, subTopic = ''*'', subCallback = 200\<rparr>,
      \<lparr>subId = 2, subTopic = ''news'', subCallback = 300\<rparr>] \<and>
   handlers (stateOf (step demoEngine 1700000000200 OpDisconnect demoSubscribed)) =
     [\<lparr>subId = 0, subTopic = ''chat'', subCallback = 100\<rparr>,
      \<lparr>subId = 1, subTopic = ''*'', subCallback = 200\<rparr>,
      \<lparr>subId = 2, subTopic = ''news'', subCallback = 300\<rparr>] \<and>
   fst (subscribe ''chat'' 100 demoConnected) = 0 \<and>
   invocationsOf 0
     (trace (run demoEngine [(1700000000300, OpIncoming (InPubSub ''chat'' (Some ''again'')))]
        (unsubscribe 0
           (run demoEngine
              [(1700000000100, OpSubscribe ''*'' 200),
               (1700000000200, OpIncoming (InPubSub ''chat'' (Some ''hi'')))]
              (snd (subscribe ''chat'' 100 demoConnected)))))) =
     [Invoked 0 100 ''hi'' ''chat'']"
proof -
  have hs: "handlers demoSubscribed =
      [\<lparr>subId = 0, subTopic = ''chat'', subCallback = 100\<rparr>,
       \<lparr>subId = 1, subTopic = ''*'', subCallback = 200\<rparr>,
       \<lparr>subId = 2, subTopic = ''news'', subCallback = 300\<rparr>]"
    and none: "invocations (trace demoSubscribed) = []"
    and i: "fst (subscribe ''chat'' 100 demoConnected) = 0"
    by (simp_all add: demoSubscribed_def demoConnected_def pubsub_defs eval_defs demo_defs)
  have quiet: "snd (callbackBehaviour demoEngine 100 ''hi'' ''chat'') = None"
    "snd (callbackBehaviour demoEngine 200 ''hi'' ''chat'') = None"
    by (simp_all add: demoEngine_def)
  have before: "invocationsOf 0
     (trace (run demoEngine
              [(1700000000100, OpSubscribe ''*'' 200),
               (1700000000200, OpIncoming (InPubSub ''chat'' (Some ''hi'')))]
              (snd (subscribe ''chat'' 100 demoConnected)))) = [Invoked 0 100 ''hi'' ''chat'']"
    by (simp add: demoConnected_def pubsub_defs eval_defs demo_defs)
  show ?thesis
    using C8_pubsub_delivery
            [where s = demoSubscribed and E = demoEngine and now = 1700000000200
               and t = "''chat''" and m = "''hi''" and i = 0 and x = OpDisconnect]
          C8_pubsub_delivery
            [where s = demoConnected and E = demoEngine and topic = "''chat''" and cb = 100
               and opsA = "[(1700000000000, OpConnectBegin ''room''),
                            (1700000000000, OpConnectSettled Resolved)]"
               and d = "(7, [1, 2, 3])" and c = True and thr = None and opts = demoOptions
               and opsB = "[(1700000000100, OpSubscribe ''*'' 200),
                            (1700000000200, OpIncoming (InPubSub ''chat'' (Some ''hi'')))]"
               and opsC = "[(1700000000300, OpIncoming (InPubSub ''chat'' (Some ''again'')))]"]
          demoConnected_reachable hs none i quiet before
    by simp
qed

text \<open>
  Claim C8 as stated fails in three places. With two subscriptions to \<open>chat\<close>, the
  first with a callback that throws, a message on \<open>chat\<close> reaches only the first: the
  throw ends the delivery in the \<open>catch\<close>, and the second, matching subscription is not
  invoked. With the first callback calling the unsubscribe function of the second
  subscription, the second callback is still invoked for the message being delivered,
  after its unsubscribe function was called and the subscription removed. And a frame on
  \<open>chat\<close> whose payload is not JSON reaches neither of the matching subscriptions.
\<close>

theorem C8_counterexample:
  "handlers demoThrowingCallback =
     [\<lparr>subId = 0, subTopic = ''chat'', subCallback = 400\<rparr>,
      \<lparr>subId = 1, subTopic = ''chat'', subCallback = 200\<rparr>] \<and>
   trace (handleIncomingMessage demoEngine 1700000000200 (InPubSub ''chat'' (Some ''hi''))
            demoThrowingCallback) =
     trace demoThrowingCallback @ [Invoked 0 400 ''hi'' ''chat'', LogError ErrPubSubDecode] \<and>
   handlers demoUnsubscribingCallback =
     [\<lparr>subId = 0, subTopic = ''chat'', subCallback = 500\<rparr>,
      \<lparr>subId = 1, subTopic = ''chat'', subCallback = 200\<rparr>] \<and>
   trace (handleIncomingMessage demoEngine 1700000000200 (InPubSub ''chat'' (Some ''hi''))
            demoUnsubscribingCallback) =
     trace demoUnsubscribingCallback @
     [Invoked 0 500 ''hi'' ''chat'', Invoked 1 200 ''hi'' ''chat''] \<and>
   handlers (handleIncomingMessage demoEngine 1700000000200 (InPubSub ''chat'' (Some ''hi''))
               demoUnsubscribingCallback) =
     [\<lparr>subId = 0, subTopic = ''chat'', subCallback = 500\<rparr>] \<and>
   trace (handleIncomingMessage demoEngine 1700000000200 (InPubSub ''chat'' None)
            demoSubscribed) =
     trace demoSubscribed @ [LogError ErrPubSubDecode]"
  by (simp add: demoThrowingCallback_def demoUnsubscribingCallback_def demoSubscribed_def
        demoConnected_def pubsub_defs eval_defs demo_defs)

section \<open>C6: syncNow\<close>

lemma broadcastAwareness_trace [simp]:
  "sentFrames (trace (broadcastAwareness E cs s)) =
     sentFrames (trace s) @
     (if cs = [] \<or> \<not> isConnected s then []
      else [OutAwareness (encodeAwarenessUpdate E (awareness s) cs)])"
  "warnings (trace (broadcastAwareness E cs s)) = warnings (trace s)"
  by (simp_all add: broadcastAwareness_def)

lemma sendSyncStep1_awareness [simp]:
  "awareness (sendSyncStep1 E now s) = awareness s"
  by (simp add: sendSyncStep1_def send_def emit_def Let_def split: option.splits)

text \<open>
  What \<open>syncNow()\<close> does. Not connected: a warning, nothing handed to the transport,
  nothing else changed. Connected, with an encoded state that is not empty: the full
  encoded document state is handed to the transport first, as an update frame, verified
  or plain as configured; and when that \<open>send\<close> returns normally, a resync request
  follows (a SyncStep1 frame, or the rate limiter's warning in its place) and then the
  presence state of the local replica, in this order.
\<close>

lemma syncNow_effect:
  "(\<not> isConnected s \<longrightarrow>
      syncNow E now s = Returned (s\<lparr>trace := trace s @ [Warn WarnCannotSync]\<rparr>) \<and>
      sentFrames (trace (stateOf (syncNow E now s))) = sentFrames (trace s)) \<and>
   (isConnected s \<and> sendThrows s = None \<and> encodeStateAsUpdate E (doc s) \<noteq> [] \<longrightarrow>
      (\<exists>s'. syncNow E now s = Returned s' \<and>
            sentFrames (trace s') =
              sentFrames (trace s) @
              [if verifyUpdates s
               then OutSyncVerified (localSeqNum s) (clientID E (doc s))
                      (encodeStateAsUpdate E (doc s)) (computeDocHash E (doc s))
               else OutSyncUpdate (encodeStateAsUpdate E (doc s))] @
              (if maxSyncRequestsPerWindow s
                    \<le> length (filter (\<lambda>t. now - t < syncRequestWindowMs s) (syncRequestTimes s))
               then [] else [OutSyncStep1 (encodeStateVector E (doc s))]) @
              [OutAwareness (encodeAwarenessUpdate E (awareness s) [clientID E (doc s)])] \<and>
            warnings (trace s') =
              warnings (trace s) @
              (if maxSyncRequestsPerWindow s
                    \<le> length (filter (\<lambda>t. now - t < syncRequestWindowMs s) (syncRequestTimes s))
               then [WarnRateLimit] else []))) \<and>
   (isConnected s \<and> encodeStateAsUpdate E (doc s) \<noteq> [] \<longrightarrow>
      (\<exists>rest. sentFrames (trace (stateOf (syncNow E now s))) =
                sentFrames (trace s) @
                (if verifyUpdates s
                 then OutSyncVerified (localSeqNum s) (clientID E (doc s))
                        (encodeStateAsUpdate E (doc s)) (computeDocHash E (doc s))
                 else OutSyncUpdate (encodeStateAsUpdate E (doc s))) # rest))"
proof -
  have off: "syncNow E now s = Returned (s\<lparr>trace := trace s @ [Warn WarnCannotSync]\<rparr>) \<and>
      sentFrames (trace (stateOf (syncNow E now s))) = sentFrames (trace s)"
    if "\<not> isConnected s"
    using that by (simp add: syncNow_def emit_def)
  have on: "\<exists>s'. syncNow E now s = Returned s' \<and>
            sentFrames (trace s') =
              sentFrames (trace s) @
              [if verifyUpdates s
               then OutSyncVerified (localSeqNum s) (clientID E (doc s))
                      (encodeStateAsUpdate E (doc s)) (computeDocHash E (doc s))
               else OutSyncUpdate (encodeStateAsUpdate E (doc s))] @
              (if maxSyncRequestsPerWindow s
                    \<le> length (filter (\<lambda>t. now - t < syncRequestWindowMs s) (syncRequestTimes s))
               then [] else [OutSyncStep1 (encodeStateVector E (doc s))]) @
              [OutAwareness (encodeAwarenessUpdate E (awareness s) [clientID E (doc s)])] \<and>
            warnings (trace s') =
              warnings (trace s) @
              (if maxSyncRequestsPerWindow s
                    \<le> length (filter (\<lambda>t. now - t < syncRequestWindowMs s) (syncRequestTimes s))
               then [WarnRateLimit] else [])"
    if "isConnected s" "sendThrows s = None" "encodeStateAsUpdate E (doc s) \<noteq> []"
    using that
    by (simp add: syncNow_def sendUpdate_def emit_def sendSyncStep1_effect Let_def)
  have first: "\<exists>rest. sentFrames (trace (stateOf (syncNow E now s))) =
                sentFrames (trace s) @
                (if verifyUpdates s
                 then OutSyncVerified (localSeqNum s) (clientID E (doc s))
                        (encodeStateAsUpdate E (doc s)) (computeDocHash E (doc s))
                 else OutSyncUpdate (encodeStateAsUpdate E (doc s))) # rest"
    if "isConnected s" "encodeStateAsUpdate E (doc s) \<noteq> []"
    using that
    by (cases "sendThrows s")
       (simp_all add: syncNow_def sendUpdate_def emit_def sendSyncStep1_effect Let_def)
  show ?thesis using off on first by blast
qed

text \<open>
  When the transport's \<open>send\<close> throws, \<open>syncNow()\<close> ends with that throw in
  \<open>_sendUpdate\<close>, which has no \<open>try\<close>: the state is the one \<open>_sendUpdate\<close> left.
\<close>

lemma syncNow_send_throws:
  "isConnected s \<Longrightarrow> sendThrows s = Some e \<Longrightarrow> encodeStateAsUpdate E (doc s) \<noteq> [] \<Longrightarrow>
   syncNow E now s = Threw e (stateOf (sendUpdate E (encodeStateAsUpdate E (doc s)) s))"
  by (simp add: syncNow_def sendUpdate_def Let_def)

text \<open>
  Claim C6 fails on the code. On a connected transport whose \<open>send\<close> throws,
  \<open>syncNow()\<close> hands the full state to the transport as verified update 0 and throws
  the transport's error to its caller: no resync request is issued (the rate limiter's
  window is unchanged) and no presence is broadcast. The sibling \<open>_send\<close>, on the same
  transport, catches and logs: a resync request issued by \<open>_sendSyncStep1\<close> returns
  normally.
\<close>

theorem C6_syncNow_throwing_transport:
  "isConnected demoThrowingTransport \<and>
   sendThrows demoThrowingTransport = Some (JsError ''send failed'') \<and>
   syncNow demoEngine 1700000000500 demoThrowingTransport =
     Threw (JsError ''send failed'')
       (demoThrowingTransport
          \<lparr>localSeqNum := 1,
           trace := trace demoThrowingTransport @
                    [TransportSend (OutSyncVerified 0 7 [0, 1, 2, 3] 1026)]\<rparr>) \<and>
   syncRequestTimes (stateOf (syncNow demoEngine 1700000000500 demoThrowingTransport)) =
     syncRequestTimes demoThrowingTransport \<and>
   trace (sendSyncStep1 demoEngine 1700000000500 demoThrowingTransport) =
     trace demoThrowingTransport @
     [TransportSend (OutSyncStep1 [1, 2, 3]), LogError (ErrSending (JsError ''send failed''))]"
  by (simp add: demoThrowingTransport_def demoConnected_def connectBegin_def connectSettled_def
        syncNow_def eval_defs demo_defs)

end
